theory Spec2Isabelle
  imports Main "HOL-Library.Word"
begin

section \<open>JavaScript strings\<close>

text \<open>
  A JavaScript string is a sequence of UTF-16 code units. Titles, notes, date strings
  and the text handed to \<^verbatim>\<open>JSON.parse\<close> are all of this type. The function
  \<open>js\<close> embeds an ASCII literal.
\<close>

type_synonym jsstring = "16 word list"

definition js :: "string \<Rightarrow> jsstring" where
  "js s = map (\<lambda>c. of_nat (of_char c)) s"

section \<open>Calendar dates, as dayjs handles them\<close>

text \<open>
  The server only uses three operations of the dayjs library, all at the granularity of
  a local calendar day: parsing a \<^verbatim>\<open>YYYY-MM-DD\<close> string, \<^verbatim>\<open>.add(n, 'day')\<close>
  and \<^verbatim>\<open>.format('YYYY-MM-DD')\<close>. A dayjs value is a calendar date, or the
  invalid date (\<open>None\<close>), which prints as \<^verbatim>\<open>Invalid Date\<close>.
\<close>

record date =
  year :: nat
  month :: nat
  day :: nat

definition leap_year :: "nat \<Rightarrow> bool" where
  "leap_year y = ((y mod 4 = 0 \<and> y mod 100 \<noteq> 0) \<or> y mod 400 = 0)"

definition days_in_month :: "nat \<Rightarrow> nat \<Rightarrow> nat" where
  "days_in_month y m =
     (if m = 2 then (if leap_year y then 29 else 28)
      else if m = 4 \<or> m = 6 \<or> m = 9 \<or> m = 11 then 30
      else 31)"

text \<open>
  A creation date the server can have: a day of the calendar whose year is written with
  four digits and is not one of the years below 100 that the JavaScript \<^verbatim>\<open>Date\<close>
  constructor moves into the twentieth century.
\<close>

definition valid_date :: "date \<Rightarrow> bool" where
  "valid_date d =
     (100 \<le> year d \<and> year d \<le> 9999 \<and> 1 \<le> month d \<and> month d \<le> 12 \<and>
      1 \<le> day d \<and> day d \<le> days_in_month (year d) (month d))"

definition next_day :: "date \<Rightarrow> date" where
  "next_day d =
     (if day d < days_in_month (year d) (month d) then d\<lparr>day := day d + 1\<rparr>
      else if month d < 12 then d\<lparr>month := month d + 1, day := 1\<rparr>
      else \<lparr>year = year d + 1, month = 1, day = 1\<rparr>)"

text \<open>\<^verbatim>\<open>x.add(n, 'day')\<close> for a count \<open>n\<close> of days that is not negative.\<close>

definition dayjs_add :: "date option \<Rightarrow> nat \<Rightarrow> date option" where
  "dayjs_add x n = map_option (next_day ^^ n) x"

text \<open>Decimal digits: the code unit of a digit, and the value of a digit's code unit.\<close>

definition digit_char :: "nat \<Rightarrow> 16 word" where
  "digit_char n = of_nat (48 + n)"

definition is_digit :: "16 word \<Rightarrow> bool" where
  "is_digit c = (0x30 \<le> c \<and> c \<le> 0x39)"

definition digit_val :: "16 word \<Rightarrow> nat" where
  "digit_val c = unat c - 48"

function decimal :: "nat \<Rightarrow> jsstring" where
  "decimal n = (if n < 10 then [digit_char n] else decimal (n div 10) @ [digit_char (n mod 10)])"
  by pat_completeness auto
termination
  by (relation "measure id") auto

text \<open>\<^verbatim>\<open>String(n).padStart(w, '0')\<close>, which dayjs uses for every field of a format.\<close>

definition pad_start :: "nat \<Rightarrow> nat \<Rightarrow> jsstring" where
  "pad_start w n = replicate (w - length (decimal n)) 0x30 @ decimal n"

definition dayjs_format :: "date option \<Rightarrow> jsstring" where
  "dayjs_format x =
     (case x of
        None \<Rightarrow> js ''Invalid Date''
      | Some d \<Rightarrow> pad_start 4 (year d) @ [0x2D] @ pad_start 2 (month d) @ [0x2D] @ pad_start 2 (day d))"

text \<open>
  \<^verbatim>\<open>dayjs(s)\<close> is only ever applied to a string that \<^verbatim>\<open>format('YYYY-MM-DD')\<close>
  produced. The model reads exactly that shape (four digits, a dash, two digits, a dash,
  two digits) when it names a day of the calendar, with the rule of the JavaScript
  \<^verbatim>\<open>Date\<close> constructor that a year below 100 counts from 1900. Every other string
  is taken as the invalid date: the normalisation that dayjs applies to other spellings
  (a day past the end of its month, missing fields, a time of day) is outside the model.
\<close>

definition dayjs :: "jsstring \<Rightarrow> date option" where
  "dayjs s =
     (case s of
        [y1, y2, y3, y4, s1, m1, m2, s2, d1, d2] \<Rightarrow>
          if list_all is_digit [y1, y2, y3, y4, m1, m2, d1, d2] \<and> s1 = 0x2D \<and> s2 = 0x2D then
            (let y0 = 1000 * digit_val y1 + 100 * digit_val y2 + 10 * digit_val y3 + digit_val y4;
                 y = (if y0 < 100 then 1900 + y0 else y0);
                 m = 10 * digit_val m1 + digit_val m2;
                 d = 10 * digit_val d1 + digit_val d2
             in if 1 \<le> m \<and> m \<le> 12 \<and> 1 \<le> d \<and> d \<le> days_in_month y m
                then Some \<lparr>year = y, month = m, day = d\<rparr> else None)
          else None
      | _ \<Rightarrow> None)"

section \<open>The database\<close>

text \<open>
  The two tables of \<^verbatim>\<open>server/index.js\<close>. Both keys are
  \<^verbatim>\<open>INTEGER PRIMARY KEY AUTOINCREMENT\<close>: the next key is one more than the
  largest key the table ever held, which SQLite keeps in its sequence table (part of the
  database, so a rollback restores it). The column \<^verbatim>\<open>completed\<close> only ever holds
  0 (the default of an insert) or 1 (after \<^verbatim>\<open>NOT completed\<close>) and is a \<open>bool\<close>.
  The flag \<open>foreign_keys\<close> is the pragma: the second revision of the server switches
  it on, the first leaves SQLite's default (off).
\<close>

record question =
  q_id :: nat
  q_title :: jsstring
  q_created_at :: jsstring
  q_notes :: jsstring

record schedule_row =
  s_id :: nat
  s_question_id :: nat
  s_due_date :: jsstring
  s_completed :: bool

record db =
  questions :: "question list"
  schedule :: "schedule_row list"
  questions_seq :: nat
  schedule_seq :: nat
  foreign_keys :: bool

datatype exn = SqliteError | SyntaxError | TypeError

text \<open>
  A write can fail for reasons outside the program (a full disk, a locked file). The
  parameter \<open>fails\<close> of the handlers says which write statements of a request fail,
  counted from 0 in the order the request runs them.
\<close>

text \<open>
  \<^verbatim>\<open>INSERT INTO questions (title, created_at) VALUES (?, ?)\<close>. The title is
  \<open>None\<close> when the request body has none or has null: the statement then throws (a
  value that is not defined cannot be bound, and \<^verbatim>\<open>NOT NULL\<close> rejects null). Which
  exception it is plays no role, the handler answers 500 for each. Any string is stored
  as it is. The result carries \<^verbatim>\<open>lastInsertRowid\<close>.
\<close>

definition insert_question ::
  "bool \<Rightarrow> jsstring option \<Rightarrow> jsstring \<Rightarrow> db \<Rightarrow> exn + (nat \<times> db)" where
  "insert_question failing title created db =
     (case title of
        None \<Rightarrow> Inl SqliteError
      | Some t \<Rightarrow>
          if failing then Inl SqliteError
          else let rowid = questions_seq db + 1 in
            Inr (rowid,
                 db\<lparr>questions := questions db @
                       [\<lparr>q_id = rowid, q_title = t, q_created_at = created, q_notes = []\<rparr>],
                    questions_seq := rowid\<rparr>))"

text \<open>\<^verbatim>\<open>INSERT INTO schedule (question_id, due_date) VALUES (?, ?)\<close>.\<close>

definition insert_schedule :: "bool \<Rightarrow> nat \<Rightarrow> jsstring \<Rightarrow> db \<Rightarrow> exn + db" where
  "insert_schedule failing questionId due db =
     (if failing \<or> (foreign_keys db \<and> questionId \<notin> q_id ` set (questions db))
      then Inl SqliteError
      else let rowid = schedule_seq db + 1 in
        Inr (db\<lparr>schedule := schedule db @
                   [\<lparr>s_id = rowid, s_question_id = questionId, s_due_date = due,
                     s_completed = False\<rparr>],
                schedule_seq := rowid\<rparr>))"

text \<open>
  \<^verbatim>\<open>db.transaction(f)()\<close> of better-sqlite3: run the body; when it throws, roll the
  database back to where the transaction began and throw again. The body hands back the
  database as it stood when it stopped.
\<close>

definition transaction :: "(db \<Rightarrow> exn option \<times> db) \<Rightarrow> db \<Rightarrow> exn option \<times> db" where
  "transaction body db =
     (case body db of
        (Some e, _) \<Rightarrow> (Some e, db)
      | (None, db') \<Rightarrow> (None, db'))"

section \<open>The schedule generator\<close>

definition INTERVALS :: "nat list" where
  "INTERVALS = [1, 3, 6, 12, 24, 48]"

text \<open>
  The loop of \<open>generateSchedule\<close>: \<open>currentDate\<close> is the running cursor, \<open>k\<close> the
  number of the next write statement of the request.
\<close>

fun schedule_loop ::
  "(nat \<Rightarrow> bool) \<Rightarrow> nat \<Rightarrow> nat \<Rightarrow> date option \<Rightarrow> nat list \<Rightarrow> db \<Rightarrow> exn option \<times> db" where
  "schedule_loop fails k questionId currentDate [] db = (None, db)"
| "schedule_loop fails k questionId currentDate (daysToAdd # rest) db =
     (let currentDate' = dayjs_add currentDate daysToAdd in
      case insert_schedule (fails k) questionId (dayjs_format currentDate') db of
        Inl e \<Rightarrow> (Some e, db)
      | Inr db' \<Rightarrow> schedule_loop fails (k + 1) questionId currentDate' rest db')"

definition generateSchedule ::
  "(nat \<Rightarrow> bool) \<Rightarrow> nat \<Rightarrow> nat \<Rightarrow> jsstring \<Rightarrow> db \<Rightarrow> exn option \<times> db" where
  "generateSchedule fails k questionId startDate db =
     transaction (schedule_loop fails k questionId (dayjs startDate) INTERVALS) db"

section \<open>The request handlers\<close>

text \<open>
  What a handler answers: \<^verbatim>\<open>{id, success: true}\<close>, \<^verbatim>\<open>{success: true}\<close>, or
  an error status with a message.
\<close>

datatype response = Ok_id nat | Ok_success | Status_404 | Status_500

text \<open>
  \<^verbatim>\<open>POST /api/questions\<close> (the spec's \<open>createItem\<close>). \<open>now\<close> is the server's
  current calendar date, \<open>title\<close> the field of the request body. The insert of the
  question is a statement of its own, outside the transaction of \<open>generateSchedule\<close>;
  the \<^verbatim>\<open>try\<close> around both turns every exception into status 500.
\<close>

definition post_questions ::
  "(nat \<Rightarrow> bool) \<Rightarrow> date \<Rightarrow> jsstring option \<Rightarrow> db \<Rightarrow> response \<times> db" where
  "post_questions fails now title db =
     (let today = dayjs_format (Some now) in
      case insert_question (fails 0) title today db of
        Inl e \<Rightarrow> (Status_500, db)
      | Inr (lastInsertRowid, db1) \<Rightarrow>
          (case generateSchedule fails 1 lastInsertRowid today db1 of
             (Some e, db2) \<Rightarrow> (Status_500, db2)
           | (None, db2) \<Rightarrow> (Ok_id lastInsertRowid, db2)))"

text \<open>
  \<^verbatim>\<open>GET /api/schedule\<close> (the spec's \<open>listReviewsForDate\<close>). The query parameter is
  \<open>None\<close> when the request has none; \<^verbatim>\<open>date || today\<close> also replaces an empty one.
  The rows come in the order of a nested loop over the two tables; SQL promises no order.
\<close>

record task =
  t_id :: nat
  t_due_date :: jsstring
  t_completed :: bool
  t_title :: jsstring
  t_question_id :: nat
  t_notes :: jsstring

definition join_row :: "schedule_row \<Rightarrow> question \<Rightarrow> task" where
  "join_row s q =
     \<lparr>t_id = s_id s, t_due_date = s_due_date s, t_completed = s_completed s,
      t_title = q_title q, t_question_id = q_id q, t_notes = q_notes q\<rparr>"

definition get_schedule :: "date \<Rightarrow> jsstring option \<Rightarrow> db \<Rightarrow> task list" where
  "get_schedule now date db =
     (let targetDate =
            (case date of
               None \<Rightarrow> dayjs_format (Some now)
             | Some d \<Rightarrow> if d = [] then dayjs_format (Some now) else d)
      in concat (map (\<lambda>s. map (join_row s) (filter (\<lambda>q. s_question_id s = q_id q) (questions db)))
                     (filter (\<lambda>s. s_due_date s = targetDate) (schedule db))))"

text \<open>
  \<^verbatim>\<open>POST /api/schedule/:id/toggle\<close> (the spec's \<open>toggleReview\<close>):
  \<^verbatim>\<open>UPDATE schedule SET completed = NOT completed WHERE id = ?\<close>, then
  \<^verbatim>\<open>{success: true}\<close> whatever the statement changed. \<open>id'\<close> is the key that
  the path parameter \<^verbatim>\<open>id\<close> names.
\<close>

definition post_schedule_toggle :: "nat \<Rightarrow> db \<Rightarrow> response \<times> db" where
  "post_schedule_toggle id' db =
     (Ok_success,
      db\<lparr>schedule := map (\<lambda>s. if s_id s = id' then s\<lparr>s_completed := \<not> s_completed s\<rparr> else s)
                           (schedule db)\<rparr>)"

text \<open>
  \<^verbatim>\<open>GET /api/calendar-stats\<close>:
  \<^verbatim>\<open>SELECT due_date, COUNT(*) FROM schedule WHERE completed = 0 GROUP BY due_date\<close>,
  one row for each date that a row of the filtered table has. The client
  (\<open>fetchData\<close>) stores the rows into an object keyed by date, \<open>statsMap\<close>: the spec's
  \<open>countsByDate\<close>.
\<close>

definition get_calendar_stats :: "db \<Rightarrow> (jsstring \<times> nat) list" where
  "get_calendar_stats db =
     (let open_rows = filter (\<lambda>s. \<not> s_completed s) (schedule db) in
      map (\<lambda>d. (d, length (filter (\<lambda>s. s_due_date s = d) open_rows)))
          (remdups (map s_due_date open_rows)))"

definition statsMap :: "db \<Rightarrow> jsstring \<rightharpoonup> nat" where
  "statsMap db = fold (\<lambda>(due_date, count) m. m(due_date \<mapsto> count)) (get_calendar_stats db) Map.empty"

text \<open>
  \<^verbatim>\<open>PUT /api/questions/:id/notes\<close> (the spec's \<open>setNotes\<close>). The file holds two
  revisions of the server. They agree on every other handler; in this one the first
  revision answers \<^verbatim>\<open>{success: true}\<close> once the statement ran, the second reads
  \<^verbatim>\<open>result.changes\<close> and answers 404 when no row changed. \<open>notes\<close> is the field of
  the request body, and \<^verbatim>\<open>notes || ''\<close> is what gets stored.
\<close>

definition update_notes :: "nat \<Rightarrow> jsstring \<Rightarrow> db \<Rightarrow> nat \<times> db" where
  "update_notes id' text db =
     (length (filter (\<lambda>q. q_id q = id') (questions db)),
      db\<lparr>questions := map (\<lambda>q. if q_id q = id' then q\<lparr>q_notes := text\<rparr> else q) (questions db)\<rparr>)"

definition put_questions_notes_v1 :: "bool \<Rightarrow> nat \<Rightarrow> jsstring option \<Rightarrow> db \<Rightarrow> response \<times> db" where
  "put_questions_notes_v1 failing id' notes db =
     (if failing then (Status_500, db)
      else let (changes, db') = update_notes id' (case notes of None \<Rightarrow> [] | Some n \<Rightarrow> n) db
           in (Ok_success, db'))"

definition put_questions_notes :: "bool \<Rightarrow> nat \<Rightarrow> jsstring option \<Rightarrow> db \<Rightarrow> response \<times> db" where
  "put_questions_notes failing id' notes db =
     (if failing then (Status_500, db)
      else let (changes, db') = update_notes id' (case notes of None \<Rightarrow> [] | Some n \<Rightarrow> n) db
           in if changes = 0 then (Status_404, db') else (Ok_success, db'))"

text \<open>
  The client's \<open>handleSubmit\<close>: an empty input sends no request; every other input is
  posted as the title.
\<close>

definition handleSubmit :: "(nat \<Rightarrow> bool) \<Rightarrow> date \<Rightarrow> jsstring \<Rightarrow> db \<Rightarrow> db" where
  "handleSubmit fails now newQuestion db =
     (if newQuestion = [] then db else snd (post_questions fails now (Some newQuestion) db))"

text \<open>
  What the constraints of the schema and the handlers keep true of every database the
  server reaches: keys are unique and not above the sequence, and every row of the
  schedule belongs to a question.
\<close>

definition wf_db :: "db \<Rightarrow> bool" where
  "wf_db db =
     (distinct (map q_id (questions db)) \<and> distinct (map s_id (schedule db)) \<and>
      list_all (\<lambda>q. q_id q \<le> questions_seq db) (questions db) \<and>
      list_all (\<lambda>s. s_id s \<le> schedule_seq db) (schedule db) \<and>
      list_all (\<lambda>s. s_question_id s \<in> q_id ` set (questions db)) (schedule db))"

definition empty_db :: "bool \<Rightarrow> db" where
  "empty_db fk = \<lparr>questions = [], schedule = [], questions_seq = 0, schedule_seq = 0, foreign_keys = fk\<rparr>"

section \<open>JSON text, as \<^verbatim>\<open>JSON.stringify\<close> writes it\<close>

text \<open>
  \<open>saveNotes\<close> stores \<^verbatim>\<open>JSON.stringify(notesData)\<close>, where \<open>notesData\<close> has the
  two properties \<open>bruteForce\<close> and \<open>optimized\<close>, in this order, both strings.
  \<open>QuoteJSONString\<close> follows ECMAScript: the string is read by code points; the
  quote, the backslash and five control characters have a two-character escape, every
  other control character and every surrogate that is not part of a pair is written
  \<^verbatim>\<open>\uXXXX\<close> in lower-case hexadecimal, and everything else stands for itself.
\<close>

definition is_leading_surrogate :: "16 word \<Rightarrow> bool" where
  "is_leading_surrogate c = (0xD800 \<le> c \<and> c \<le> 0xDBFF)"

definition is_trailing_surrogate :: "16 word \<Rightarrow> bool" where
  "is_trailing_surrogate c = (0xDC00 \<le> c \<and> c \<le> 0xDFFF)"

definition hex_digit :: "nat \<Rightarrow> 16 word" where
  "hex_digit n = (if n < 10 then of_nat (48 + n) else of_nat (87 + n))"

definition UnicodeEscape :: "16 word \<Rightarrow> jsstring" where
  "UnicodeEscape c =
     (let n = unat c in
      [0x5C, 0x75, hex_digit (n div 4096), hex_digit (n div 256 mod 16),
       hex_digit (n div 16 mod 16), hex_digit (n mod 16)])"

definition quote_unit :: "16 word \<Rightarrow> jsstring" where
  "quote_unit c =
     (if c = 0x08 then [0x5C, 0x62]
      else if c = 0x09 then [0x5C, 0x74]
      else if c = 0x0A then [0x5C, 0x6E]
      else if c = 0x0C then [0x5C, 0x66]
      else if c = 0x0D then [0x5C, 0x72]
      else if c = 0x22 then [0x5C, 0x22]
      else if c = 0x5C then [0x5C, 0x5C]
      else if c < 0x20 \<or> is_leading_surrogate c \<or> is_trailing_surrogate c then UnicodeEscape c
      else [c])"

fun quote_body :: "jsstring \<Rightarrow> jsstring" where
  "quote_body [] = []"
| "quote_body [c] = quote_unit c"
| "quote_body (c # d # cs) =
     (if is_leading_surrogate c \<and> is_trailing_surrogate d then c # d # quote_body cs
      else quote_unit c @ quote_body (d # cs))"

definition QuoteJSONString :: "jsstring \<Rightarrow> jsstring" where
  "QuoteJSONString s = [0x22] @ quote_body s @ [0x22]"

text \<open>\<^verbatim>\<open>JSON.stringify({bruteForce: b, optimized: o})\<close> for two strings.\<close>

definition JSON_stringify_notes :: "jsstring \<Rightarrow> jsstring \<Rightarrow> jsstring" where
  "JSON_stringify_notes b o' =
     [0x7B] @ QuoteJSONString (js ''bruteForce'') @ [0x3A] @ QuoteJSONString b @ [0x2C] @
     QuoteJSONString (js ''optimized'') @ [0x3A] @ QuoteJSONString o' @ [0x7D]"

section \<open>JSON text, as \<^verbatim>\<open>JSON.parse\<close> reads it\<close>

text \<open>
  A JSON value. A number keeps its text: the program only ever asks whether it is zero.
  An object keeps its members in the order of the text.
\<close>

datatype json =
  JNull
| JBool bool
| JNumber jsstring
| JString jsstring
| JArray "json list"
| JObject "(jsstring \<times> json) list"

datatype token =
  LBrace | RBrace | LBracket | RBracket | Colon | Comma
| TString jsstring | TNumber jsstring | TTrue | TFalse | TNull

subsection \<open>Tokens\<close>

definition hex_val :: "16 word \<Rightarrow> nat option" where
  "hex_val c =
     (if 0x30 \<le> c \<and> c \<le> 0x39 then Some (unat c - 48)
      else if 0x61 \<le> c \<and> c \<le> 0x66 then Some (unat c - 87)
      else if 0x41 \<le> c \<and> c \<le> 0x46 then Some (unat c - 55)
      else None)"

definition hex4_val :: "16 word \<Rightarrow> 16 word \<Rightarrow> 16 word \<Rightarrow> 16 word \<Rightarrow> 16 word option" where
  "hex4_val h1 h2 h3 h4 =
     (case (hex_val h1, hex_val h2, hex_val h3, hex_val h4) of
        (Some a, Some b, Some c, Some d) \<Rightarrow> Some (of_nat (4096 * a + 256 * b + 16 * c + d))
      | _ \<Rightarrow> None)"

text \<open>The character after a backslash, other than \<open>u\<close>.\<close>

definition escape_val :: "16 word \<Rightarrow> 16 word option" where
  "escape_val e =
     (if e = 0x22 then Some 0x22
      else if e = 0x5C then Some 0x5C
      else if e = 0x2F then Some 0x2F
      else if e = 0x62 then Some 0x08
      else if e = 0x66 then Some 0x0C
      else if e = 0x6E then Some 0x0A
      else if e = 0x72 then Some 0x0D
      else if e = 0x74 then Some 0x09
      else None)"

text \<open>
  A string, read from after its opening quote: the characters it denotes and the text
  after its closing quote. A control character may not stand in a string unescaped.
\<close>

fun lex_string :: "jsstring \<Rightarrow> (jsstring \<times> jsstring) option" where
  "lex_string [] = None"
| "lex_string (c # cs) =
     (if c = 0x22 then Some ([], cs)
      else if c = 0x5C then
        (case cs of
           [] \<Rightarrow> None
         | e # es \<Rightarrow>
             if e = 0x75 then
               (case es of
                  h1 # h2 # h3 # h4 # rest \<Rightarrow>
                    (case hex4_val h1 h2 h3 h4 of
                       None \<Rightarrow> None
                     | Some u \<Rightarrow> map_option (apfst ((#) u)) (lex_string rest))
                | _ \<Rightarrow> None)
             else
               (case escape_val e of
                  None \<Rightarrow> None
                | Some u \<Rightarrow> map_option (apfst ((#) u)) (lex_string es)))
      else if c < 0x20 then None
      else map_option (apfst ((#) c)) (lex_string cs))"

text \<open>
  A number: an optional minus, an integer part without a leading zero, an optional
  fraction, an optional exponent.
\<close>

definition valid_exponent :: "jsstring \<Rightarrow> bool" where
  "valid_exponent r =
     (case r of
        [] \<Rightarrow> True
      | c # r1 \<Rightarrow>
          (c = 0x65 \<or> c = 0x45) \<and>
          (let ds = (case r1 of [] \<Rightarrow> [] | s # r2 \<Rightarrow> if s = 0x2B \<or> s = 0x2D then r2 else r1)
           in ds \<noteq> [] \<and> list_all is_digit ds))"

definition valid_fraction :: "jsstring \<Rightarrow> bool" where
  "valid_fraction r =
     (case r of
        [] \<Rightarrow> True
      | c # r1 \<Rightarrow>
          if c = 0x2E then takeWhile is_digit r1 \<noteq> [] \<and> valid_exponent (dropWhile is_digit r1)
          else valid_exponent r)"

definition strip_minus :: "jsstring \<Rightarrow> jsstring" where
  "strip_minus s = (case s of [] \<Rightarrow> [] | c # r \<Rightarrow> if c = 0x2D then r else s)"

definition valid_number :: "jsstring \<Rightarrow> bool" where
  "valid_number s =
     (let ip = takeWhile is_digit (strip_minus s) in
      ip \<noteq> [] \<and> (length ip = 1 \<or> hd ip \<noteq> 0x30) \<and>
      valid_fraction (dropWhile is_digit (strip_minus s)))"

definition is_ws :: "16 word \<Rightarrow> bool" where
  "is_ws c = (c = 0x20 \<or> c = 0x09 \<or> c = 0x0A \<or> c = 0x0D)"

definition is_number_char :: "16 word \<Rightarrow> bool" where
  "is_number_char c = (is_digit c \<or> c = 0x2D \<or> c = 0x2B \<or> c = 0x2E \<or> c = 0x65 \<or> c = 0x45)"

definition is_letter :: "16 word \<Rightarrow> bool" where
  "is_letter c = (0x61 \<le> c \<and> c \<le> 0x7A)"

definition punctuation :: "16 word \<Rightarrow> token option" where
  "punctuation c =
     (if c = 0x7B then Some LBrace
      else if c = 0x7D then Some RBrace
      else if c = 0x5B then Some LBracket
      else if c = 0x5D then Some RBracket
      else if c = 0x3A then Some Colon
      else if c = 0x2C then Some Comma
      else None)"

definition literal :: "jsstring \<Rightarrow> token option" where
  "literal w =
     (if w = js ''true'' then Some TTrue
      else if w = js ''false'' then Some TFalse
      else if w = js ''null'' then Some TNull
      else None)"

lemma lex_string_shorter: "lex_string cs = Some (s, rest) \<Longrightarrow> length rest < length cs"
proof (induction cs arbitrary: s rest rule: lex_string.induct)
  case 1
  then show ?case by simp
next
  case (2 c cs)
  then show ?case
    by (fastforce split: if_splits list.splits option.splits)
qed

text \<open>
  The tokens of a text, or \<open>None\<close> where no token starts. A number or a literal is the
  longest run of their characters: two values never stand side by side in JSON, so where
  the run ends inside a longer invalid text the text is rejected either way.
\<close>

function lex :: "jsstring \<Rightarrow> token list option" where
  "lex [] = Some []"
| "lex (c # cs) =
     (if is_ws c then lex cs
      else case punctuation c of
        Some t \<Rightarrow> map_option ((#) t) (lex cs)
      | None \<Rightarrow>
          if c = 0x22 then
            (case lex_string cs of
               None \<Rightarrow> None
             | Some (s, rest) \<Rightarrow> map_option ((#) (TString s)) (lex rest))
          else if is_number_char c then
            (if valid_number (c # takeWhile is_number_char cs)
             then map_option ((#) (TNumber (c # takeWhile is_number_char cs)))
                    (lex (dropWhile is_number_char cs))
             else None)
          else if is_letter c then
            (case literal (c # takeWhile is_letter cs) of
               None \<Rightarrow> None
             | Some t \<Rightarrow> map_option ((#) t) (lex (dropWhile is_letter cs)))
          else None)"
  by pat_completeness auto
termination
proof (relation "measure length")
  show "wf (measure length)" by simp
next
  fix c cs assume "\<not> is_ws c" then show "(cs, c # cs) \<in> measure length" by simp
next
  fix c cs t show "(cs, c # cs) \<in> measure length" by simp
next
  fix c :: "16 word" and cs x2 s rest
  assume "lex_string cs = Some x2" "(s, rest) = x2"
  then have "length rest < length cs" using lex_string_shorter by metis
  then show "(rest, c # cs) \<in> measure length" by simp
next
  fix c :: "16 word" and cs
  show "(dropWhile is_number_char cs, c # cs) \<in> measure length"
    by (simp add: length_dropWhile_le less_Suc_eq_le)
next
  fix c :: "16 word" and cs
  show "(dropWhile is_letter cs, c # cs) \<in> measure length"
    by (simp add: length_dropWhile_le less_Suc_eq_le)
qed

subsection \<open>Values\<close>

text \<open>
  The grammar of JSON values over the tokens, read by a pushdown automaton: the stack
  holds the arrays and objects that are open around the value being read, each with
  what it has collected so far; the mode says what may come next.
\<close>

datatype frame =
  InArray "json list"
| InObject "(jsstring \<times> json) list" jsstring

datatype mode =
  Value
| ArrayOpen
| AfterElement "json list"
| ObjectOpen
| Key "(jsstring \<times> json) list"
| AfterKey "(jsstring \<times> json) list" jsstring
| AfterMember "(jsstring \<times> json) list"
| Done json

text \<open>A value is complete: it is the whole text, an element, or a member's value.\<close>

fun complete :: "frame list \<Rightarrow> json \<Rightarrow> frame list \<times> mode" where
  "complete [] v = ([], Done v)"
| "complete (InArray es # stk) v = (stk, AfterElement (es @ [v]))"
| "complete (InObject ms k # stk) v = (stk, AfterMember (ms @ [(k, v)]))"

text \<open>A token where a value has to start.\<close>

fun start_value :: "frame list \<Rightarrow> token \<Rightarrow> (frame list \<times> mode) option" where
  "start_value stk (TString s) = Some (complete stk (JString s))"
| "start_value stk (TNumber n) = Some (complete stk (JNumber n))"
| "start_value stk TTrue = Some (complete stk (JBool True))"
| "start_value stk TFalse = Some (complete stk (JBool False))"
| "start_value stk TNull = Some (complete stk JNull)"
| "start_value stk LBracket = Some (stk, ArrayOpen)"
| "start_value stk LBrace = Some (stk, ObjectOpen)"
| "start_value stk _ = None"

fun step :: "frame list \<Rightarrow> mode \<Rightarrow> token \<Rightarrow> (frame list \<times> mode) option" where
  "step stk Value t = start_value stk t"
| "step stk ArrayOpen t =
     (if t = RBracket then Some (complete stk (JArray [])) else start_value (InArray [] # stk) t)"
| "step stk (AfterElement es) t =
     (if t = Comma then Some (InArray es # stk, Value)
      else if t = RBracket then Some (complete stk (JArray es))
      else None)"
| "step stk ObjectOpen t =
     (case t of
        RBrace \<Rightarrow> Some (complete stk (JObject []))
      | TString k \<Rightarrow> Some (stk, AfterKey [] k)
      | _ \<Rightarrow> None)"
| "step stk (Key ms) t = (case t of TString k \<Rightarrow> Some (stk, AfterKey ms k) | _ \<Rightarrow> None)"
| "step stk (AfterKey ms k) t = (if t = Colon then Some (InObject ms k # stk, Value) else None)"
| "step stk (AfterMember ms) t =
     (if t = Comma then Some (stk, Key ms)
      else if t = RBrace then Some (complete stk (JObject ms))
      else None)"
| "step stk (Done v) t = None"

fun parse_tokens :: "frame list \<Rightarrow> mode \<Rightarrow> token list \<Rightarrow> json option" where
  "parse_tokens stk m [] = (case m of Done v \<Rightarrow> Some v | _ \<Rightarrow> None)"
| "parse_tokens stk m (t # ts) =
     (case step stk m t of
        None \<Rightarrow> None
      | Some (stk', m') \<Rightarrow> parse_tokens stk' m' ts)"

text \<open>\<^verbatim>\<open>JSON.parse(text)\<close>: the value, or the \<open>SyntaxError\<close> it throws.\<close>

definition JSON_parse :: "jsstring \<Rightarrow> exn + json" where
  "JSON_parse text =
     (case lex text of
        None \<Rightarrow> Inl SyntaxError
      | Some ts \<Rightarrow> (case parse_tokens [] Value ts of None \<Rightarrow> Inl SyntaxError | Some v \<Rightarrow> Inr v))"

section \<open>The notes of a question\<close>

text \<open>
  The value of a number's text is \<open>M\<close> times ten to the \<open>k\<close>, for the digits \<open>M\<close> of
  its integer part and fraction and its exponent less the length of the fraction. As a
  JavaScript number it is zero when \<open>M\<close> is, and when the value is so small that the
  nearest double is zero: at most \<open>2\<close> to the \<open>-1075\<close>, half the smallest double
  above zero.
\<close>

definition digits_val :: "jsstring \<Rightarrow> nat" where
  "digits_val ds = foldl (\<lambda>a c. 10 * a + digit_val c) 0 ds"

definition number_exponent :: "jsstring \<Rightarrow> int" where
  "number_exponent r =
     (case r of
        [] \<Rightarrow> 0
      | e # r1 \<Rightarrow>
          (case r1 of
             [] \<Rightarrow> 0
           | s # r2 \<Rightarrow>
               if s = 0x2D then - int (digits_val r2)
               else if s = 0x2B then int (digits_val r2)
               else int (digits_val r1)))"

definition number_is_zero :: "jsstring \<Rightarrow> bool" where
  "number_is_zero s =
     (let ip = takeWhile is_digit (strip_minus s);
          r = dropWhile is_digit (strip_minus s);
          fp = (case r of [] \<Rightarrow> [] | c # r1 \<Rightarrow> if c = 0x2E then takeWhile is_digit r1 else []);
          r' = (case r of [] \<Rightarrow> [] | c # r1 \<Rightarrow> if c = 0x2E then dropWhile is_digit r1 else r);
          M = digits_val (ip @ fp);
          k = number_exponent r' - int (length fp)
      in M = 0 \<or> (k < 0 \<and> M * 2 ^ 1075 \<le> 10 ^ nat (- k)))"

text \<open>What \<^verbatim>\<open>x || ''\<close> tests: every value but null, false, zero and the empty string.\<close>

fun truthy :: "json \<Rightarrow> bool" where
  "truthy JNull = False"
| "truthy (JBool b) = b"
| "truthy (JNumber n) = (\<not> number_is_zero n)"
| "truthy (JString s) = (s \<noteq> [])"
| "truthy (JArray es) = True"
| "truthy (JObject ms) = True"

text \<open>
  \<^verbatim>\<open>parsed.bruteForce\<close> and \<^verbatim>\<open>parsed.optimized\<close>: reading a property of null
  throws a \<open>TypeError\<close>; an object has the property when its text has a member of that
  name (the last one, where several have it); numbers, strings, booleans and arrays have
  no property of either name, and reading one gives \<open>undefined\<close> (\<open>None\<close>).
\<close>

definition get_property :: "json \<Rightarrow> jsstring \<Rightarrow> exn + json option" where
  "get_property v k =
     (case v of
        JNull \<Rightarrow> Inl TypeError
      | JObject ms \<Rightarrow> Inr (map_of (rev ms) k)
      | _ \<Rightarrow> Inr None)"

definition or_empty :: "json option \<Rightarrow> json" where
  "or_empty x = (case x of None \<Rightarrow> JString [] | Some v \<Rightarrow> if truthy v then v else JString [])"

record notes_payload =
  bruteForce :: json
  optimized :: json

text \<open>The body of the \<^verbatim>\<open>try\<close> of \<open>parseNotes\<close>, and \<open>parseNotes\<close> with its \<^verbatim>\<open>catch\<close>.\<close>

definition parseNotes_try :: "jsstring \<Rightarrow> exn + notes_payload" where
  "parseNotes_try notesString =
     (case JSON_parse notesString of
        Inl e \<Rightarrow> Inl e
      | Inr parsed \<Rightarrow>
          (case get_property parsed (js ''bruteForce'') of
             Inl e \<Rightarrow> Inl e
           | Inr b \<Rightarrow>
               (case get_property parsed (js ''optimized'') of
                  Inl e \<Rightarrow> Inl e
                | Inr o' \<Rightarrow> Inr \<lparr>bruteForce = or_empty b, optimized = or_empty o'\<rparr>)))"

definition parseNotes :: "jsstring \<Rightarrow> notes_payload" where
  "parseNotes notesString =
     (if notesString = [] then \<lparr>bruteForce = JString [], optimized = JString []\<rparr>
      else case parseNotes_try notesString of
        Inl e \<Rightarrow> \<lparr>bruteForce = JString notesString, optimized = JString []\<rparr>
      | Inr p \<Rightarrow> p)"

section \<open>A database to try things on\<close>

text \<open>
  The database after \<open>LC 43\<close> was added on 2024-01-01 as the first question.
\<close>

definition example_day :: date where
  "example_day = \<lparr>year = 2024, month = 1, day = 1\<rparr>"

definition example_db :: db where
  "example_db =
     \<lparr>questions = [\<lparr>q_id = 1, q_title = js ''LC 43'', q_created_at = js ''2024-01-01'',
                     q_notes = []\<rparr>],
      schedule =
        [\<lparr>s_id = 1, s_question_id = 1, s_due_date = js ''2024-01-02'', s_completed = False\<rparr>,
         \<lparr>s_id = 2, s_question_id = 1, s_due_date = js ''2024-01-05'', s_completed = False\<rparr>,
         \<lparr>s_id = 3, s_question_id = 1, s_due_date = js ''2024-01-11'', s_completed = False\<rparr>,
         \<lparr>s_id = 4, s_question_id = 1, s_due_date = js ''2024-01-23'', s_completed = False\<rparr>,
         \<lparr>s_id = 5, s_question_id = 1, s_due_date = js ''2024-02-16'', s_completed = False\<rparr>,
         \<lparr>s_id = 6, s_question_id = 1, s_due_date = js ''2024-04-04'', s_completed = False\<rparr>],
      questions_seq = 1, schedule_seq = 6, foreign_keys = True\<rparr>"

section \<open>Dates: printing and reading\<close>

declare decimal.simps [simp del]

lemma decimal1: "n < 10 \<Longrightarrow> decimal n = [digit_char n]"
  by (subst decimal.simps) simp

lemma decimal2:
  "10 \<le> n \<Longrightarrow> n < 100 \<Longrightarrow> decimal n = [digit_char (n div 10), digit_char (n mod 10)]"
  by (subst decimal.simps) (simp add: decimal1)

lemma decimal3:
  "100 \<le> n \<Longrightarrow> n < 1000 \<Longrightarrow>
   decimal n = [digit_char (n div 100), digit_char (n div 10 mod 10), digit_char (n mod 10)]"
  by (subst decimal.simps) (simp add: decimal2 div_mult2_eq[symmetric])

lemma decimal4:
  "1000 \<le> n \<Longrightarrow> n < 10000 \<Longrightarrow>
   decimal n = [digit_char (n div 1000), digit_char (n div 100 mod 10),
                digit_char (n div 10 mod 10), digit_char (n mod 10)]"
  by (subst decimal.simps) (simp add: decimal3 div_mult2_eq[symmetric])

lemma unat_digit_char: "n < 10 \<Longrightarrow> unat (digit_char n) = 48 + n"
  unfolding digit_char_def by (simp only: unat_of_nat) simp

lemma is_digit_digit_char: "n < 10 \<Longrightarrow> is_digit (digit_char n)"
  unfolding is_digit_def by (simp add: word_le_nat_alt unat_digit_char)

lemma digit_val_digit_char: "n < 10 \<Longrightarrow> digit_val (digit_char n) = n"
  unfolding digit_val_def by (simp add: unat_digit_char)

lemma pad2: "n < 100 \<Longrightarrow> pad_start 2 n = [digit_char (n div 10), digit_char (n mod 10)]"
  by (cases "n < 10") (simp_all add: pad_start_def decimal1 decimal2 digit_char_def)

lemma pad4:
  "100 \<le> n \<Longrightarrow> n < 10000 \<Longrightarrow>
   pad_start 4 n = [digit_char (n div 1000), digit_char (n div 100 mod 10),
                    digit_char (n div 10 mod 10), digit_char (n mod 10)]"
  by (cases "n < 1000") (simp_all add: pad_start_def decimal3 decimal4 digit_char_def)

lemma dayjs_digits:
  assumes "a < 10" "b < 10" "c < 10" "e < 10" "f < 10" "g < 10" "h < 10" "i < 10"
  shows "dayjs [digit_char a, digit_char b, digit_char c, digit_char e, 0x2D,
                digit_char f, digit_char g, 0x2D, digit_char h, digit_char i] =
    (let y0 = 1000 * a + 100 * b + 10 * c + e;
         y = (if y0 < 100 then 1900 + y0 else y0);
         m = 10 * f + g;
         d = 10 * h + i
     in if 1 \<le> m \<and> m \<le> 12 \<and> 1 \<le> d \<and> d \<le> days_in_month y m
        then Some \<lparr>year = y, month = m, day = d\<rparr> else None)"
  unfolding dayjs_def using assms
  by (simp add: is_digit_digit_char digit_val_digit_char)

lemma days_in_month_le: "days_in_month y m \<le> 31"
  by (simp add: days_in_month_def)

lemma digits4:
  "n < 10000 \<Longrightarrow>
   1000 * (n div 1000) + 100 * (n div 100 mod 10) + 10 * (n div 10 mod 10) + n mod 10 = (n::nat)"
proof -
  have 1: "n mod 100 = 10 * (n div 10 mod 10) + n mod 10"
    using mod_mult2_eq[of n 10 10] by simp
  have 2: "n mod 1000 = 100 * (n div 100 mod 10) + n mod 100"
    using mod_mult2_eq[of n 100 10] by simp
  have 3: "n = 1000 * (n div 1000) + n mod 1000"
    by simp
  show ?thesis using 1 2 3 by linarith
qed

lemma digits2: "10 * (n div 10) + n mod 10 = (n::nat)"
  by simp

text \<open>Reading a printed date gives the date back.\<close>

lemma dayjs_format_inverse: "valid_date d \<Longrightarrow> dayjs (dayjs_format (Some d)) = Some d"
proof -
  assume v: "valid_date d"
  have y: "100 \<le> year d" "year d < 10000" and m: "month d < 100" and dd: "day d < 100"
    using v days_in_month_le[of "year d" "month d"] by (auto simp: valid_date_def)
  have fmt: "dayjs_format (Some d) =
    [digit_char (year d div 1000), digit_char (year d div 100 mod 10),
     digit_char (year d div 10 mod 10), digit_char (year d mod 10), 0x2D,
     digit_char (month d div 10), digit_char (month d mod 10), 0x2D,
     digit_char (day d div 10), digit_char (day d mod 10)]"
    by (simp add: dayjs_format_def pad2[OF m] pad2[OF dd] pad4[OF y])
  have lt: "year d div 1000 < 10" "month d div 10 < 10" "day d div 10 < 10"
    using y m dd by auto
  have "dayjs (dayjs_format (Some d)) =
     (let y0 = 1000 * (year d div 1000) + 100 * (year d div 100 mod 10) +
               10 * (year d div 10 mod 10) + year d mod 10;
          y = (if y0 < 100 then 1900 + y0 else y0);
          m = 10 * (month d div 10) + month d mod 10;
          d' = 10 * (day d div 10) + day d mod 10
      in if 1 \<le> m \<and> m \<le> 12 \<and> 1 \<le> d' \<and> d' \<le> days_in_month y m
         then Some \<lparr>year = y, month = m, day = d'\<rparr> else None)"
    unfolding fmt using lt by (intro dayjs_digits) simp_all
  also have "\<dots> = Some d"
    unfolding digits4[OF y(2)] digits2 using v y by (simp add: valid_date_def)
  finally show ?thesis .
qed

text \<open>The day after a day of the calendar is a day of the calendar.\<close>

lemma next_day_calendar:
  assumes "1 \<le> month d" "month d \<le> 12" "1 \<le> day d" "day d \<le> days_in_month (year d) (month d)"
  shows "1 \<le> month (next_day d) \<and> month (next_day d) \<le> 12 \<and> 1 \<le> day (next_day d) \<and>
         day (next_day d) \<le> days_in_month (year (next_day d)) (month (next_day d))"
  using assms by (auto simp: next_day_def days_in_month_def)

text \<open>Adding days twice is adding their sum: the cursor of the loop is cumulative.\<close>

lemma funpow_funpow: "(f ^^ b) ((f ^^ a) x) = (f ^^ (a + b)) x"
  by (induction b) simp_all

lemma dayjs_add_add: "dayjs_add (dayjs_add x a) b = dayjs_add x (a + b)"
  by (cases x) (simp_all add: dayjs_add_def funpow_funpow)

text \<open>Rules that evaluate the date functions on numerals.\<close>

lemma funpow_numeral_unfold: "(f ^^ numeral k) x = f ((f ^^ pred_numeral k) x)"
  by (simp add: numeral_eq_Suc)

lemmas date_eval =
  dayjs_add_def funpow_numeral_unfold next_day_def days_in_month_def leap_year_def
  dayjs_format_def pad2 pad4 digit_char_def js_def

section \<open>The schedule of a new question\<close>

lemma first_six:
  assumes "\<forall>i<6. P (k + i)"
  shows "P k \<and> P (Suc k) \<and> P (Suc (Suc k)) \<and> P (Suc (Suc (Suc k))) \<and>
         P (Suc (Suc (Suc (Suc k)))) \<and> P (Suc (Suc (Suc (Suc (Suc k)))))"
  using assms[rule_format, of 0] assms[rule_format, of 1] assms[rule_format, of 2]
        assms[rule_format, of 3] assms[rule_format, of 4] assms[rule_format, of 5]
  by (simp add: numeral_eq_Suc)

lemma schedule_loop_ok:
  assumes "\<forall>i<6. \<not> fails (k + i)"
      and "foreign_keys db \<longrightarrow> questionId \<in> q_id ` set (questions db)"
  shows "schedule_loop fails k questionId x INTERVALS db =
           (None,
            db\<lparr>schedule := schedule db @
                  map (\<lambda>(i, n). \<lparr>s_id = schedule_seq db + i, s_question_id = questionId,
                                  s_due_date = dayjs_format (dayjs_add x n),
                                  s_completed = False\<rparr>)
                      [(1, 1), (2, 4), (3, 10), (4, 22), (5, 46), (6, 94)],
                schedule_seq := schedule_seq db + 6\<rparr>)"
  using first_six[OF assms(1)] assms(2)
  by (simp add: INTERVALS_def insert_schedule_def Let_def dayjs_add_add)

text \<open>
  Claim C1. For every valid creation date \<open>d\<close>, when no insert fails,
  \<open>generateSchedule\<close> adds exactly six rows to the schedule, in this order, due on
  \<open>d\<close> plus 1, 4, 10, 22, 46 and 94 days: the running sums of the intervals. The rows
  take the next six keys, belong to the question and are not completed; nothing else
  of the database changes.
\<close>

theorem generateSchedule_due_dates:
  assumes "valid_date d"
      and "\<forall>i<6. \<not> fails (k + i)"
      and "foreign_keys db \<longrightarrow> questionId \<in> q_id ` set (questions db)"
  shows "generateSchedule fails k questionId (dayjs_format (Some d)) db =
           (None,
            db\<lparr>schedule := schedule db @
                  map (\<lambda>(i, n). \<lparr>s_id = schedule_seq db + i, s_question_id = questionId,
                                  s_due_date = dayjs_format (dayjs_add (Some d) n),
                                  s_completed = False\<rparr>)
                      [(1, 1), (2, 4), (3, 10), (4, 22), (5, 46), (6, 94)],
                schedule_seq := schedule_seq db + 6\<rparr>)"
  unfolding generateSchedule_def transaction_def dayjs_format_inverse[OF assms(1)]
  by (simp add: schedule_loop_ok[OF assms(2) assms(3)])

text \<open>
  The theorem at the creation date 2024-01-01, for the first question of a database:
  the reviews are due on 2024-01-02, 2024-01-05, 2024-01-11, 2024-01-23, 2024-02-16 and
  2024-04-04.
\<close>

theorem generateSchedule_due_dates_witness:
  "valid_date \<lparr>year = 2024, month = 1, day = 1\<rparr> \<and>
   generateSchedule (\<lambda>k. False) 1 1 (js ''2024-01-01'')
     \<lparr>questions = [\<lparr>q_id = 1, q_title = js ''LC 43'', q_created_at = js ''2024-01-01'',
                     q_notes = []\<rparr>],
      schedule = [], questions_seq = 1, schedule_seq = 0, foreign_keys = True\<rparr> =
   (None,
    \<lparr>questions = [\<lparr>q_id = 1, q_title = js ''LC 43'', q_created_at = js ''2024-01-01'',
                    q_notes = []\<rparr>],
     schedule =
       [\<lparr>s_id = 1, s_question_id = 1, s_due_date = js ''2024-01-02'', s_completed = False\<rparr>,
        \<lparr>s_id = 2, s_question_id = 1, s_due_date = js ''2024-01-05'', s_completed = False\<rparr>,
        \<lparr>s_id = 3, s_question_id = 1, s_due_date = js ''2024-01-11'', s_completed = False\<rparr>,
        \<lparr>s_id = 4, s_question_id = 1, s_due_date = js ''2024-01-23'', s_completed = False\<rparr>,
        \<lparr>s_id = 5, s_question_id = 1, s_due_date = js ''2024-02-16'', s_completed = False\<rparr>,
        \<lparr>s_id = 6, s_question_id = 1, s_due_date = js ''2024-04-04'', s_completed = False\<rparr>],
     questions_seq = 1, schedule_seq = 6, foreign_keys = True\<rparr>)"
proof -
  let ?d = "\<lparr>year = 2024, month = 1, day = 1\<rparr>"
  let ?db = "\<lparr>questions = [\<lparr>q_id = 1, q_title = js ''LC 43'', q_created_at = js ''2024-01-01'',
                              q_notes = []\<rparr>],
             schedule = [], questions_seq = 1, schedule_seq = 0, foreign_keys = True\<rparr>"
  have v: "valid_date ?d"
    by (simp add: valid_date_def days_in_month_def)
  have f: "\<forall>i<6. \<not> (\<lambda>k. False) (1 + i)"
    by simp
  have k: "foreign_keys ?db \<longrightarrow> 1 \<in> q_id ` set (questions ?db)"
    by simp
  have s: "dayjs_format (Some ?d) = js ''2024-01-01''"
    by (simp add: date_eval)
  show ?thesis
    using generateSchedule_due_dates[OF v f k] v unfolding s
    by (simp add: date_eval)
qed

section \<open>Adding a question\<close>

text \<open>The transaction: one failing insert undoes the inserts before it.\<close>

lemma schedule_loop_fail:
  "\<exists>i<length ns. fails (k + i) \<Longrightarrow>
   fst (schedule_loop fails k questionId x ns db) = Some SqliteError"
proof (induction ns arbitrary: k x db)
  case Nil
  then show ?case by simp
next
  case (Cons n ns)
  show ?case
  proof (cases "insert_schedule (fails k) questionId (dayjs_format (dayjs_add x n)) db")
    case (Inl e)
    then have "e = SqliteError"
      by (auto simp: insert_schedule_def Let_def split: if_splits)
    with Inl show ?thesis by (simp add: Let_def)
  next
    case (Inr db')
    then have nf: "\<not> fails k"
      by (auto simp: insert_schedule_def split: if_splits)
    from Cons.prems obtain i where i: "i < Suc (length ns)" "fails (k + i)"
      by auto
    with nf have "i \<noteq> 0" by (cases i) auto
    then obtain j where j: "i = Suc j" by (cases i) auto
    with i have "\<exists>j<length ns. fails (k + 1 + j)" by auto
    from Cons.IH[OF this] Inr show ?thesis by (simp add: Let_def)
  qed
qed

lemma generateSchedule_fail:
  "\<exists>i<6. fails (k + i) \<Longrightarrow>
   generateSchedule fails k questionId startDate db = (Some SqliteError, db)"
proof -
  assume a: "\<exists>i<6. fails (k + i)"
  have "length INTERVALS = 6"
    by (simp add: INTERVALS_def)
  then have "\<exists>i<length INTERVALS. fails (k + i)"
    using a by (simp only:)
  from schedule_loop_fail[OF this, of questionId "dayjs startDate" db]
  show ?thesis
    unfolding generateSchedule_def transaction_def
    by (cases "schedule_loop fails k questionId (dayjs startDate) INTERVALS db") auto
qed

lemma generateSchedule_ok:
  assumes "\<forall>i<6. \<not> fails (k + i)"
      and "foreign_keys db \<longrightarrow> questionId \<in> q_id ` set (questions db)"
  shows "generateSchedule fails k questionId startDate db =
           (None,
            db\<lparr>schedule := schedule db @
                  map (\<lambda>(i, n). \<lparr>s_id = schedule_seq db + i, s_question_id = questionId,
                                  s_due_date = dayjs_format (dayjs_add (dayjs startDate) n),
                                  s_completed = False\<rparr>)
                      [(1, 1), (2, 4), (3, 10), (4, 22), (5, 46), (6, 94)],
                schedule_seq := schedule_seq db + 6\<rparr>)"
  unfolding generateSchedule_def transaction_def
  by (simp add: schedule_loop_ok[OF assms])

text \<open>The three ways \<^verbatim>\<open>POST /api/questions\<close> can go.\<close>

lemma post_questions_insert_fails:
  "title = None \<or> fails 0 \<Longrightarrow> post_questions fails now title db = (Status_500, db)"
  by (auto simp: post_questions_def insert_question_def Let_def split: option.splits)

lemma post_questions_schedule_fails:
  assumes "\<not> fails 0" and "\<exists>i<6. fails (1 + i)"
  shows "post_questions fails now (Some t) db =
           (Status_500,
            db\<lparr>questions := questions db @
                  [\<lparr>q_id = questions_seq db + 1, q_title = t,
                    q_created_at = dayjs_format (Some now), q_notes = []\<rparr>],
                questions_seq := questions_seq db + 1\<rparr>)"
proof -
  have h: "\<exists>i<6. fails (Suc 0 + i)"
    using assms(2) by simp
  show ?thesis
    using assms(1)
    by (simp add: post_questions_def insert_question_def Let_def generateSchedule_fail[OF h])
qed

lemma post_questions_ok:
  assumes "\<forall>i<7. \<not> fails i"
  shows "post_questions fails now (Some t) db =
           (Ok_id (questions_seq db + 1),
            db\<lparr>questions := questions db @
                  [\<lparr>q_id = questions_seq db + 1, q_title = t,
                    q_created_at = dayjs_format (Some now), q_notes = []\<rparr>],
                questions_seq := questions_seq db + 1,
                schedule := schedule db @
                  map (\<lambda>(i, n). \<lparr>s_id = schedule_seq db + i, s_question_id = questions_seq db + 1,
                                  s_due_date = dayjs_format (dayjs_add (dayjs (dayjs_format (Some now))) n),
                                  s_completed = False\<rparr>)
                      [(1, 1), (2, 4), (3, 10), (4, 22), (5, 46), (6, 94)],
                schedule_seq := schedule_seq db + 6\<rparr>)"
proof -
  have 0: "\<not> fails 0" using assms by simp
  have 1: "\<forall>i<6. \<not> fails (Suc 0 + i)" using assms by simp
  show ?thesis
    using 0
    by (simp add: post_questions_def insert_question_def Let_def generateSchedule_ok[OF 1])
qed

text \<open>Every handler keeps the database well formed, and the empty database is.\<close>

lemma wf_db_empty: "wf_db (empty_db fk)"
  by (simp add: wf_db_def empty_db_def)

lemma wf_db_add_question:
  assumes "wf_db db"
  shows "wf_db (db\<lparr>questions := questions db @
                  [\<lparr>q_id = questions_seq db + 1, q_title = t, q_created_at = c, q_notes = []\<rparr>],
                questions_seq := questions_seq db + 1\<rparr>)"
  using assms
  by (fastforce simp: wf_db_def list_all_iff)

lemma wf_db_add_reviews:
  assumes "wf_db db" and "q \<in> q_id ` set (questions db)"
  shows "wf_db (db\<lparr>schedule := schedule db @
                  map (\<lambda>(i, n). \<lparr>s_id = schedule_seq db + i, s_question_id = q,
                                  s_due_date = f n, s_completed = False\<rparr>)
                      [(1, 1), (2, 4), (3, 10), (4, 22), (5, 46), (6, 94)],
                schedule_seq := schedule_seq db + 6\<rparr>)"
  using assms
  by (fastforce simp: wf_db_def list_all_iff)

lemma wf_db_post_questions:
  assumes "wf_db db"
  shows "wf_db (snd (post_questions fails now title db))"
proof (cases "title = None \<or> fails 0")
  case True
  then show ?thesis
    using assms by (simp add: post_questions_insert_fails)
next
  case False
  then obtain t where t: "title = Some t" and f0: "\<not> fails 0"
    by auto
  show ?thesis
  proof (cases "\<exists>i<6. fails (1 + i)")
    case True
    show ?thesis
      unfolding t post_questions_schedule_fails[OF f0 True]
      using wf_db_add_question[OF assms] by simp
  next
    case False
    have "\<forall>i<7. \<not> fails i"
    proof (intro allI impI)
      fix i :: nat assume "i < 7"
      show "\<not> fails i"
      proof (cases i)
        case 0
        with f0 show ?thesis by simp
      next
        case (Suc j)
        with \<open>i < 7\<close> False show ?thesis by auto
      qed
    qed
    from post_questions_ok[OF this, of now t db]
    show ?thesis
      unfolding t
      using wf_db_add_reviews[OF wf_db_add_question[OF assms, of t "dayjs_format (Some now)"],
              of "questions_seq db + 1" "\<lambda>n. dayjs_format (dayjs_add (dayjs (dayjs_format (Some now))) n)"]
      by simp
  qed
qed

lemma toggle_keys:
  "map s_id (schedule (snd (post_schedule_toggle id' db))) = map s_id (schedule db)"
  by (simp add: post_schedule_toggle_def comp_def if_distrib[of s_id])

lemma wf_db_toggle:
  assumes "wf_db db"
  shows "wf_db (snd (post_schedule_toggle id' db))"
proof -
  have "distinct (map s_id (schedule (snd (post_schedule_toggle id' db))))"
    using assms unfolding toggle_keys by (simp add: wf_db_def)
  then show ?thesis
    using assms by (auto simp: wf_db_def post_schedule_toggle_def list_all_iff)
qed

lemma update_notes_keys:
  "map q_id (questions (snd (update_notes id' text db))) = map q_id (questions db)"
  by (simp add: update_notes_def comp_def if_distrib[of q_id])

lemma wf_db_update_notes:
  assumes "wf_db db"
  shows "wf_db (snd (update_notes id' text db))"
proof -
  have k: "map q_id (questions (snd (update_notes id' text db))) = map q_id (questions db)"
    by (rule update_notes_keys)
  then have "q_id ` set (questions (snd (update_notes id' text db))) = q_id ` set (questions db)"
    by (metis set_map)
  moreover have "schedule (snd (update_notes id' text db)) = schedule db"
    "questions_seq (snd (update_notes id' text db)) = questions_seq db"
    "schedule_seq (snd (update_notes id' text db)) = schedule_seq db"
    by (simp_all add: update_notes_def)
  moreover have "list_all (\<lambda>q. q_id q \<le> questions_seq db) (questions (snd (update_notes id' text db)))"
    using assms by (auto simp: wf_db_def update_notes_def list_all_iff)
  ultimately show ?thesis
    using assms k by (simp add: wf_db_def)
qed

lemma wf_db_put_notes: "wf_db db \<Longrightarrow> wf_db (snd (put_questions_notes failing id' notes db))"
  using wf_db_update_notes[of db id' "case notes of None \<Rightarrow> [] | Some n \<Rightarrow> n"]
  by (cases "update_notes id' (case notes of None \<Rightarrow> [] | Some n \<Rightarrow> n) db")
     (simp add: put_questions_notes_def)

lemma wf_db_put_notes_v1:
  "wf_db db \<Longrightarrow> wf_db (snd (put_questions_notes_v1 failing id' notes db))"
  using wf_db_update_notes[of db id' "case notes of None \<Rightarrow> [] | Some n \<Rightarrow> n"]
  by (cases "update_notes id' (case notes of None \<Rightarrow> [] | Some n \<Rightarrow> n) db")
     (simp add: put_questions_notes_v1_def)

text \<open>The example database is what adding its question to the empty database gives.\<close>

lemmas example_eval =
  example_day_def example_db_def empty_db_def date_eval

lemma example_db_created:
  "post_questions (\<lambda>k. False) example_day (Some (js ''LC 43'')) (empty_db True) = (Ok_id 1, example_db)"
proof -
  have "\<forall>i<7. \<not> (\<lambda>k. False) i" by simp
  from post_questions_ok[OF this, of example_day "js ''LC 43''" "empty_db True"]
  show ?thesis
    by (simp add: example_day_def example_db_def empty_db_def date_eval dayjs_def is_digit_def digit_val_def)
qed

lemma wf_db_example: "wf_db example_db"
  by (simp add: wf_db_def example_db_def)

text \<open>
  Claim C2, as the code has it. Only the six inserts of the reviews are one unit of
  work. When the insert of the question fails (or the request has no title) the
  database is unchanged. When an insert of a review fails, the request fails and no
  row of the schedule is added, whichever of the six inserts it was: no part of the
  set of reviews stays. The row of the question, inserted before the transaction
  began, stays. When no write fails and the request has a title, it succeeds.
\<close>

theorem post_questions_reviews_atomic:
  "(title = None \<or> fails 0 \<longrightarrow> post_questions fails now title db = (Status_500, db)) \<and>
   (\<forall>t. title = Some t \<and> \<not> fails 0 \<and> (\<exists>i<6. fails (1 + i)) \<longrightarrow>
      fst (post_questions fails now title db) = Status_500 \<and>
      schedule (snd (post_questions fails now title db)) = schedule db \<and>
      schedule_seq (snd (post_questions fails now title db)) = schedule_seq db \<and>
      questions (snd (post_questions fails now title db)) =
        questions db @ [\<lparr>q_id = questions_seq db + 1, q_title = t,
                          q_created_at = dayjs_format (Some now), q_notes = []\<rparr>]) \<and>
   (\<forall>t. title = Some t \<and> (\<forall>i<7. \<not> fails i) \<longrightarrow>
      fst (post_questions fails now title db) = Ok_id (questions_seq db + 1))"
  using post_questions_insert_fails[of title fails now db]
  by (auto simp: post_questions_schedule_fails post_questions_ok)

text \<open>
  The theorem where the insert of the question fails and where the third insert of a
  review fails.
\<close>

theorem post_questions_reviews_atomic_witness:
  "post_questions (\<lambda>k. k = 0) example_day (Some (js ''LC 43'')) (empty_db True) =
     (Status_500, empty_db True) \<and>
   fst (post_questions (\<lambda>k. k = 3) example_day (Some (js ''LC 43'')) (empty_db True)) = Status_500 \<and>
   schedule (snd (post_questions (\<lambda>k. k = 3) example_day (Some (js ''LC 43'')) (empty_db True))) = [] \<and>
   questions (snd (post_questions (\<lambda>k. k = 3) example_day (Some (js ''LC 43'')) (empty_db True))) =
     [\<lparr>q_id = 1, q_title = js ''LC 43'', q_created_at = js ''2024-01-01'', q_notes = []\<rparr>]"
proof -
  have a: "Some (js ''LC 43'') = None \<or> (\<lambda>k. k = 0) (0::nat)"
    by simp
  have b: "Some (js ''LC 43'') = Some (js ''LC 43'') \<and> \<not> (\<lambda>k. k = 3) (0::nat) \<and>
           (\<exists>i<6. (\<lambda>k::nat. k = 3) (1 + i))"
    by (auto intro: exI[of _ 2])
  have s: "dayjs_format (Some example_day) = js ''2024-01-01''"
    by (simp add: example_eval)
  show ?thesis
    using post_questions_reviews_atomic[of "Some (js ''LC 43'')" "\<lambda>k. k = 0" example_day "empty_db True"]
          post_questions_reviews_atomic[of "Some (js ''LC 43'')" "\<lambda>k. k = 3" example_day "empty_db True"]
          a b
    unfolding s
    by (simp add: empty_db_def)
qed

text \<open>
  Claim C2 as stated does not hold: when the first insert of a review fails, right
  after the insert of the question, the request fails and the database has one
  question more than before.
\<close>

theorem post_questions_item_survives_counterexample:
  "questions (empty_db True) = [] \<and>
   post_questions (\<lambda>k. k = 1) example_day (Some (js ''LC 43'')) (empty_db True) =
     (Status_500,
      \<lparr>questions = [\<lparr>q_id = 1, q_title = js ''LC 43'', q_created_at = js ''2024-01-01'',
                      q_notes = []\<rparr>],
       schedule = [], questions_seq = 1, schedule_seq = 0, foreign_keys = True\<rparr>)"
proof -
  have 0: "\<not> (\<lambda>k. k = 1) (0::nat)"
    by simp
  have 1: "\<exists>i<6. (\<lambda>k::nat. k = 1) (1 + i)"
    by (auto intro: exI[of _ 0])
  show ?thesis
    unfolding post_questions_schedule_fails[OF 0 1]
    by (simp add: example_eval)
qed

text \<open>
  Claim C3, as the code has it. The server does not look at the title: for every
  string, the empty string and strings of blanks included, when no write fails the
  request succeeds and adds one question, with this title, and six rows of the
  schedule. The form of the client sends no request for the empty input, which leaves
  the database unchanged.
\<close>

theorem post_questions_any_title:
  assumes "\<forall>i<7. \<not> fails i"
  shows "fst (post_questions fails now (Some title) db) = Ok_id (questions_seq db + 1) \<and>
         questions (snd (post_questions fails now (Some title) db)) =
           questions db @ [\<lparr>q_id = questions_seq db + 1, q_title = title,
                             q_created_at = dayjs_format (Some now), q_notes = []\<rparr>] \<and>
         length (schedule (snd (post_questions fails now (Some title) db))) =
           length (schedule db) + 6 \<and>
         take (length (schedule db)) (schedule (snd (post_questions fails now (Some title) db))) =
           schedule db \<and>
         handleSubmit fails now [] db = db"
  by (simp add: post_questions_ok[OF assms] handleSubmit_def)

text \<open>
  The theorem for a title of two blanks.
\<close>

theorem post_questions_any_title_witness:
  "fst (post_questions (\<lambda>k. False) example_day (Some (js ''  '')) (empty_db True)) = Ok_id 1 \<and>
   questions (snd (post_questions (\<lambda>k. False) example_day (Some (js ''  '')) (empty_db True))) =
     [\<lparr>q_id = 1, q_title = js ''  '', q_created_at = js ''2024-01-01'', q_notes = []\<rparr>] \<and>
   length (schedule (snd (post_questions (\<lambda>k. False) example_day (Some (js ''  '')) (empty_db True)))) = 6 \<and>
   handleSubmit (\<lambda>k. False) example_day [] (empty_db True) = empty_db True"
proof -
  have f: "\<forall>i<7. \<not> (\<lambda>k. False) i"
    by simp
  have s: "dayjs_format (Some example_day) = js ''2024-01-01''"
    by (simp add: example_eval)
  show ?thesis
    using post_questions_any_title[OF f, of example_day "js ''  ''" "empty_db True"]
    unfolding s
    by (simp add: empty_db_def)
qed

text \<open>
  Claim C3 as stated does not hold: the empty title is accepted by the server, and a
  title of two blanks typed into the form of the client creates a question and its six
  reviews.
\<close>

theorem post_questions_blank_title_counterexample:
  "fst (post_questions (\<lambda>k. False) example_day (Some []) (empty_db True)) = Ok_id 1 \<and>
   length (questions (snd (post_questions (\<lambda>k. False) example_day (Some []) (empty_db True)))) = 1 \<and>
   length (schedule (snd (post_questions (\<lambda>k. False) example_day (Some []) (empty_db True)))) = 6 \<and>
   length (questions (handleSubmit (\<lambda>k. False) example_day (js ''  '') (empty_db True))) = 1 \<and>
   length (schedule (handleSubmit (\<lambda>k. False) example_day (js ''  '') (empty_db True))) = 6"
proof -
  have f: "\<forall>i<7. \<not> (\<lambda>k. False) i"
    by simp
  have n: "js ''  '' \<noteq> []"
    by (simp add: js_def)
  show ?thesis
    unfolding handleSubmit_def post_questions_ok[OF f]
    using n by (simp add: empty_db_def)
qed

section \<open>Completing a review\<close>

lemma toggle_missing:
  "id' \<notin> s_id ` set (schedule db) \<Longrightarrow> post_schedule_toggle id' db = (Ok_success, db)"
proof -
  assume a: "id' \<notin> s_id ` set (schedule db)"
  have "map (\<lambda>s. if s_id s = id' then s\<lparr>s_completed := \<not> s_completed s\<rparr> else s) (schedule db)
          = schedule db"
    using a by (intro map_idI) auto
  then show ?thesis
    by (simp add: post_schedule_toggle_def)
qed

text \<open>
  Claim C4, as the code has it. For a key that no row of the schedule has, the answer
  is the success answer and the database is unchanged. For every key, the answer is the
  success answer, the questions are unchanged, and each row of the schedule stays in its
  place, with its flag flipped when it has the key and unchanged otherwise.
\<close>

theorem post_schedule_toggle_cases:
  "(id' \<notin> s_id ` set (schedule db) \<longrightarrow> post_schedule_toggle id' db = (Ok_success, db)) \<and>
   fst (post_schedule_toggle id' db) = Ok_success \<and>
   questions (snd (post_schedule_toggle id' db)) = questions db \<and>
   length (schedule (snd (post_schedule_toggle id' db))) = length (schedule db) \<and>
   (\<forall>i<length (schedule db).
      schedule (snd (post_schedule_toggle id' db)) ! i =
        (if s_id (schedule db ! i) = id'
         then (schedule db ! i)\<lparr>s_completed := \<not> s_completed (schedule db ! i)\<rparr>
         else schedule db ! i))"
  using toggle_missing[of id' db]
  by (simp add: post_schedule_toggle_def)

text \<open>
  The theorem in the example database, for a key that is missing and for review 2.
\<close>

theorem post_schedule_toggle_cases_witness:
  "post_schedule_toggle 7 example_db = (Ok_success, example_db) \<and>
   map s_completed (schedule (snd (post_schedule_toggle 2 example_db))) =
     [False, True, False, False, False, False]"
proof -
  have m: "7 \<notin> s_id ` set (schedule example_db)"
    by (simp add: example_db_def)
  have l: "length (schedule example_db) = 6"
    by (simp add: example_db_def)
  have "\<forall>i<6. schedule (snd (post_schedule_toggle 2 example_db)) ! i =
        (if s_id (schedule example_db ! i) = 2
         then (schedule example_db ! i)\<lparr>s_completed := \<not> s_completed (schedule example_db ! i)\<rparr>
         else schedule example_db ! i)"
    and "length (schedule (snd (post_schedule_toggle 2 example_db))) = 6"
    using post_schedule_toggle_cases[of 2 example_db] l by simp_all
  then have "map s_completed (schedule (snd (post_schedule_toggle 2 example_db))) =
     [False, True, False, False, False, False]"
    by (simp add: list_eq_iff_nth_eq example_db_def less_Suc_eq numeral_eq_Suc all_conj_distrib)
  then show ?thesis
    using post_schedule_toggle_cases[of 7 example_db] m by simp
qed

text \<open>
  Claim C4 as stated does not hold: for the missing key 7 the answer is the success
  answer, not the one for a key that was not found.
\<close>

theorem post_schedule_toggle_missing_counterexample:
  "7 \<notin> s_id ` set (schedule example_db) \<and>
   fst (post_schedule_toggle 7 example_db) = Ok_success \<and>
   Ok_success \<noteq> Status_404"
  by (simp add: example_db_def post_schedule_toggle_def)

text \<open>
  Claim C8. Toggling a review twice gives the database back as it was, so the flag of
  the review has its first value again; one toggle flips exactly the flags of the
  rows with the key.
\<close>

theorem post_schedule_toggle_twice:
  "snd (post_schedule_toggle id' (snd (post_schedule_toggle id' db))) = db \<and>
   map s_completed (schedule (snd (post_schedule_toggle id' db))) =
     map (\<lambda>s. if s_id s = id' then \<not> s_completed s else s_completed s) (schedule db)"
proof -
  have "map ((\<lambda>s. if s_id s = id' then s\<lparr>s_completed := \<not> s_completed s\<rparr> else s) \<circ>
             (\<lambda>s. if s_id s = id' then s\<lparr>s_completed := \<not> s_completed s\<rparr> else s)) (schedule db)
          = schedule db"
    by (intro map_idI) auto
  then show ?thesis
    by (simp add: post_schedule_toggle_def cong: if_cong)
qed

section \<open>Storing notes\<close>

lemma update_notes_missing:
  "id' \<notin> q_id ` set (questions db) \<Longrightarrow> update_notes id' text db = (0, db)"
proof -
  assume a: "id' \<notin> q_id ` set (questions db)"
  have "map (\<lambda>q. if q_id q = id' then q\<lparr>q_notes := text\<rparr> else q) (questions db) = questions db"
    using a by (intro map_idI) auto
  moreover have "filter (\<lambda>q. q_id q = id') (questions db) = []"
    using a by (auto simp: filter_empty_conv)
  ultimately show ?thesis
    by (simp add: update_notes_def)
qed

lemma update_notes_present:
  "id' \<in> q_id ` set (questions db) \<Longrightarrow> 0 < fst (update_notes id' text db)"
  by (auto simp: update_notes_def filter_empty_conv)

text \<open>
  The second revision of the handler does what claim C9 says: 404 and an unchanged
  database for a key that no question has; success, with the notes of the question
  overwritten and nothing else changed, for a key that one has.
\<close>

lemma put_questions_notes_spec:
  "(id' \<notin> q_id ` set (questions db) \<longrightarrow>
      put_questions_notes False id' notes db = (Status_404, db)) \<and>
   (id' \<in> q_id ` set (questions db) \<longrightarrow>
      fst (put_questions_notes False id' notes db) = Ok_success \<and>
      schedule (snd (put_questions_notes False id' notes db)) = schedule db \<and>
      map q_id (questions (snd (put_questions_notes False id' notes db))) = map q_id (questions db) \<and>
      (\<forall>q \<in> set (questions (snd (put_questions_notes False id' notes db))).
          q_id q = id' \<longrightarrow> q_notes q = (case notes of None \<Rightarrow> [] | Some n \<Rightarrow> n)))"
proof (cases "id' \<in> q_id ` set (questions db)")
  case True
  from update_notes_present[OF True]
  show ?thesis
    using True
    by (auto simp: put_questions_notes_def update_notes_def Let_def split: prod.splits)
next
  case False
  then show ?thesis
    by (simp add: put_questions_notes_def update_notes_missing)
qed

text \<open>
  The first revision answers success whatever the key.
\<close>

lemma put_questions_notes_v1_always_success:
  "fst (put_questions_notes_v1 False id' notes db) = Ok_success"
  by (simp add: put_questions_notes_v1_def split: prod.splits)

text \<open>
  Claim C9 at a key that no question has: the first revision of the handler answers
  success and leaves the database as it was, where the second answers 404.
\<close>

theorem put_questions_notes_v1_missing_id:
  "2 \<notin> q_id ` set (questions
      \<lparr>questions = [\<lparr>q_id = 1, q_title = js ''LC 43'', q_created_at = js ''2024-01-01'', q_notes = []\<rparr>],
       schedule = [], questions_seq = 1, schedule_seq = 0, foreign_keys = False\<rparr>) \<and>
   put_questions_notes_v1 False 2 (Some (js ''two pointers''))
     \<lparr>questions = [\<lparr>q_id = 1, q_title = js ''LC 43'', q_created_at = js ''2024-01-01'', q_notes = []\<rparr>],
      schedule = [], questions_seq = 1, schedule_seq = 0, foreign_keys = False\<rparr> =
   (Ok_success,
     \<lparr>questions = [\<lparr>q_id = 1, q_title = js ''LC 43'', q_created_at = js ''2024-01-01'', q_notes = []\<rparr>],
      schedule = [], questions_seq = 1, schedule_seq = 0, foreign_keys = False\<rparr>) \<and>
   put_questions_notes False 2 (Some (js ''two pointers''))
     \<lparr>questions = [\<lparr>q_id = 1, q_title = js ''LC 43'', q_created_at = js ''2024-01-01'', q_notes = []\<rparr>],
      schedule = [], questions_seq = 1, schedule_seq = 0, foreign_keys = True\<rparr> =
   (Status_404,
     \<lparr>questions = [\<lparr>q_id = 1, q_title = js ''LC 43'', q_created_at = js ''2024-01-01'', q_notes = []\<rparr>],
      schedule = [], questions_seq = 1, schedule_seq = 0, foreign_keys = True\<rparr>)"
  by (simp add: put_questions_notes_v1_def put_questions_notes_def update_notes_def)

section \<open>The calendar\<close>

lemma fold_stats:
  "fold (\<lambda>(d, c) m. m(d \<mapsto> c)) (map (\<lambda>d. (d, f d)) ks) m =
     (\<lambda>d. if d \<in> set ks then Some (f d) else m d)"
  by (induction ks arbitrary: m) (auto simp: fun_eq_iff)

lemma statsMap_eq:
  "statsMap db d =
     (if \<exists>s \<in> set (schedule db). \<not> s_completed s \<and> s_due_date s = d
      then Some (length (filter (\<lambda>s. \<not> s_completed s \<and> s_due_date s = d) (schedule db)))
      else None)"
  by (auto simp: statsMap_def get_calendar_stats_def Let_def fold_stats)

lemma toggle_last_open:
  assumes d: "distinct (map s_id (schedule db))"
      and s: "s \<in> set (schedule db)"
      and only: "\<forall>s' \<in> set (schedule db). \<not> s_completed s' \<and> s_due_date s' = s_due_date s \<longrightarrow> s' = s"
      and o: "\<not> s_completed s"
  shows "statsMap (snd (post_schedule_toggle (s_id s) db)) (s_due_date s) = None"
proof -
  have inj: "inj_on s_id (set (schedule db))"
    using d by (simp add: distinct_map)
  have "\<not> (\<exists>r \<in> set (schedule (snd (post_schedule_toggle (s_id s) db))).
            \<not> s_completed r \<and> s_due_date r = s_due_date s)"
  proof
    assume "\<exists>r \<in> set (schedule (snd (post_schedule_toggle (s_id s) db))).
              \<not> s_completed r \<and> s_due_date r = s_due_date s"
    then obtain r0 where r0: "r0 \<in> set (schedule db)"
      and r: "s_due_date (if s_id r0 = s_id s then r0\<lparr>s_completed := \<not> s_completed r0\<rparr> else r0) = s_due_date s"
             "\<not> s_completed (if s_id r0 = s_id s then r0\<lparr>s_completed := \<not> s_completed r0\<rparr> else r0)"
      by (auto simp: post_schedule_toggle_def)
    show False
    proof (cases "s_id r0 = s_id s")
      case True
      then have "r0 = s" using inj r0 s by (auto dest: inj_onD)
      with r True o show False by simp
    next
      case False
      with r have "s_due_date r0 = s_due_date s" "\<not> s_completed r0" by simp_all
      with only r0 have "r0 = s" by blast
      with False show False by simp
    qed
  qed
  then show ?thesis
    by (simp add: statsMap_eq)
qed

text \<open>
  Claim C7. The keys of the calendar's mapping are exactly the dates on which a review
  that is not completed is due; the count of a date is the number of these reviews, and
  is never 0. When the keys of the schedule are unique and a review is the only one of
  its date that is not completed, toggling it takes the date out of the mapping.
\<close>

theorem statsMap_counts:
  "dom (statsMap db) = {d. \<exists>s \<in> set (schedule db). \<not> s_completed s \<and> s_due_date s = d} \<and>
   (\<forall>d c. statsMap db d = Some c \<longrightarrow>
      c = length (filter (\<lambda>s. \<not> s_completed s \<and> s_due_date s = d) (schedule db)) \<and> 0 < c) \<and>
   (\<forall>s. distinct (map s_id (schedule db)) \<and> s \<in> set (schedule db) \<and> \<not> s_completed s \<and>
        (\<forall>s' \<in> set (schedule db). \<not> s_completed s' \<and> s_due_date s' = s_due_date s \<longrightarrow> s' = s) \<longrightarrow>
        statsMap (snd (post_schedule_toggle (s_id s) db)) (s_due_date s) = None)"
proof (intro conjI allI impI)
  show "dom (statsMap db) = {d. \<exists>s \<in> set (schedule db). \<not> s_completed s \<and> s_due_date s = d}"
    by (auto simp: statsMap_eq dom_def)
next
  fix d c assume a: "statsMap db d = Some c"
  then show "c = length (filter (\<lambda>s. \<not> s_completed s \<and> s_due_date s = d) (schedule db))"
    by (auto simp: statsMap_eq split: if_splits)
  from a show "0 < c"
    by (auto simp: statsMap_eq filter_empty_conv split: if_splits)
next
  fix s
  assume "distinct (map s_id (schedule db)) \<and> s \<in> set (schedule db) \<and> \<not> s_completed s \<and>
        (\<forall>s' \<in> set (schedule db). \<not> s_completed s' \<and> s_due_date s' = s_due_date s \<longrightarrow> s' = s)"
  then show "statsMap (snd (post_schedule_toggle (s_id s) db)) (s_due_date s) = None"
    using toggle_last_open[of db s] by blast
qed

text \<open>
  The theorem in the example database: one review is due on 2024-01-02, none once that
  review is completed, and none on 2024-01-03.
\<close>

theorem statsMap_counts_witness:
  "statsMap example_db (js ''2024-01-02'') = Some 1 \<and>
   statsMap (snd (post_schedule_toggle 1 example_db)) (js ''2024-01-02'') = None \<and>
   statsMap example_db (js ''2024-01-03'') = None"
proof -
  let ?s = "\<lparr>s_id = 1, s_question_id = 1, s_due_date = js ''2024-01-02'', s_completed = False\<rparr>"
  have h: "distinct (map s_id (schedule example_db)) \<and> ?s \<in> set (schedule example_db) \<and>
           \<not> s_completed ?s \<and>
           (\<forall>s' \<in> set (schedule example_db).
               \<not> s_completed s' \<and> s_due_date s' = s_due_date ?s \<longrightarrow> s' = ?s)"
    by (simp add: example_db_def js_def)
  note t = statsMap_counts[of example_db]
  have "statsMap (snd (post_schedule_toggle (s_id ?s) example_db)) (s_due_date ?s) = None"
    by (rule t[THEN conjunct2, THEN conjunct2, rule_format, of ?s]) (rule h)
  then have a: "statsMap (snd (post_schedule_toggle 1 example_db)) (js ''2024-01-02'') = None"
    by simp
  have d: "dom (statsMap example_db) =
      {d. \<exists>s \<in> set (schedule example_db). \<not> s_completed s \<and> s_due_date s = d}"
    by (rule t[THEN conjunct1])
  have "js ''2024-01-03'' \<notin> dom (statsMap example_db)"
    unfolding d by (simp add: example_db_def js_def)
  then have c: "statsMap example_db (js ''2024-01-03'') = None"
    by (simp add: domIff)
  have "js ''2024-01-02'' \<in> dom (statsMap example_db)"
    unfolding d by (simp add: example_db_def js_def)
  then obtain n where n: "statsMap example_db (js ''2024-01-02'') = Some n"
    by (auto simp: domIff)
  have "n = length (filter (\<lambda>s. \<not> s_completed s \<and> s_due_date s = js ''2024-01-02'')
                          (schedule example_db))"
    by (rule t[THEN conjunct2, THEN conjunct1, rule_format, OF n, THEN conjunct1])
  then have "n = 1"
    by (simp add: example_db_def js_def)
  with n a c show ?thesis by simp
qed

section \<open>The reviews of a day\<close>

lemma filter_unique:
  "distinct (map f xs) \<Longrightarrow> x \<in> set xs \<Longrightarrow> filter (\<lambda>q. f x = f q) xs = [x]"
proof (induction xs)
  case Nil
  then show ?case by simp
next
  case (Cons a xs)
  show ?case
  proof (cases "x = a")
    case True
    have "filter (\<lambda>q. f a = f q) xs = []"
      using Cons.prems(1) by (auto simp: filter_empty_conv)
    with True show ?thesis by simp
  next
    case False
    with Cons.prems have x: "x \<in> set xs" by simp
    then have "f x \<in> f ` set xs" by simp
    then have "f x \<noteq> f a" using Cons.prems(1) by auto
    with Cons.IH x Cons.prems(1) show ?thesis by simp
  qed
qed

lemma join_unique:
  assumes "wf_db db" "s \<in> set (schedule db)"
  shows "\<exists>q \<in> set (questions db). q_id q = s_question_id s \<and>
           filter (\<lambda>q. s_question_id s = q_id q) (questions db) = [q]"
proof -
  from assms obtain q where q: "q \<in> set (questions db)" "q_id q = s_question_id s"
    by (auto simp: wf_db_def list_all_iff)
  have "distinct (map q_id (questions db))"
    using assms(1) by (simp add: wf_db_def)
  from filter_unique[OF this q(1)] q show ?thesis
    by auto
qed

lemma t_id_join_row: "t_id (join_row s q) = s_id s"
  by (simp add: join_row_def)

lemma get_schedule_rows:
  assumes "\<forall>s \<in> set rows. \<exists>q \<in> set qs. q_id q = s_question_id s \<and>
             filter (\<lambda>q. s_question_id s = q_id q) qs = [q]"
  shows "map t_id (concat (map (\<lambda>s. map (join_row s) (filter (\<lambda>q. s_question_id s = q_id q) qs)) rows))
           = map s_id rows \<and>
         (\<forall>t \<in> set (concat (map (\<lambda>s. map (join_row s) (filter (\<lambda>q. s_question_id s = q_id q) qs)) rows)).
            \<exists>s \<in> set rows. \<exists>q \<in> set qs. q_id q = s_question_id s \<and> t = join_row s q)"
  using assms
proof (induction rows)
  case Nil
  then show ?case by simp
next
  case (Cons s rows)
  then obtain q where q: "q \<in> set qs" "q_id q = s_question_id s"
      "filter (\<lambda>q. s_question_id s = q_id q) qs = [q]"
    by auto
  have ih: "map t_id (concat (map (\<lambda>s. map (join_row s) (filter (\<lambda>q. s_question_id s = q_id q) qs)) rows))
           = map s_id rows \<and>
         (\<forall>t \<in> set (concat (map (\<lambda>s. map (join_row s) (filter (\<lambda>q. s_question_id s = q_id q) qs)) rows)).
            \<exists>s \<in> set rows. \<exists>q \<in> set qs. q_id q = s_question_id s \<and> t = join_row s q)"
    using Cons by simp
  show ?case
    using ih q by (auto simp: t_id_join_row)
qed

lemma get_schedule_joined:
  assumes "wf_db db"
  shows "get_schedule now None db = get_schedule now (Some (dayjs_format (Some now))) db \<and>
         map t_id (get_schedule now None db) =
           map s_id (filter (\<lambda>s. s_due_date s = dayjs_format (Some now)) (schedule db)) \<and>
         (\<forall>t \<in> set (get_schedule now None db).
            \<exists>s \<in> set (schedule db). \<exists>q \<in> set (questions db).
              s_due_date s = dayjs_format (Some now) \<and> q_id q = s_question_id s \<and>
              t_id t = s_id s \<and> t_due_date t = s_due_date s \<and> t_completed t = s_completed s \<and>
              t_title t = q_title q \<and> t_question_id t = q_id q \<and> t_notes t = q_notes q)"
proof -
  let ?rows = "filter (\<lambda>s. s_due_date s = dayjs_format (Some now)) (schedule db)"
  have 1: "get_schedule now None db = get_schedule now (Some (dayjs_format (Some now))) db"
    by (simp add: get_schedule_def)
  have "\<forall>s \<in> set ?rows. \<exists>q \<in> set (questions db). q_id q = s_question_id s \<and>
             filter (\<lambda>q. s_question_id s = q_id q) (questions db) = [q]"
    using join_unique[OF assms] by simp
  from get_schedule_rows[OF this]
  have 2: "map t_id (get_schedule now None db) = map s_id ?rows"
    and 3: "\<forall>t \<in> set (get_schedule now None db).
            \<exists>s \<in> set ?rows. \<exists>q \<in> set (questions db). q_id q = s_question_id s \<and> t = join_row s q"
    by (simp_all add: get_schedule_def)
  have 4: "\<forall>t \<in> set (get_schedule now None db).
            \<exists>s \<in> set (schedule db). \<exists>q \<in> set (questions db).
              s_due_date s = dayjs_format (Some now) \<and> q_id q = s_question_id s \<and>
              t_id t = s_id s \<and> t_due_date t = s_due_date s \<and> t_completed t = s_completed s \<and>
              t_title t = q_title q \<and> t_question_id t = q_id q \<and> t_notes t = q_notes q"
  proof
    fix t assume "t \<in> set (get_schedule now None db)"
    with 3 obtain s q where "s \<in> set ?rows" "q \<in> set (questions db)"
      "q_id q = s_question_id s" "t = join_row s q"
      by blast
    then show "\<exists>s \<in> set (schedule db). \<exists>q \<in> set (questions db).
              s_due_date s = dayjs_format (Some now) \<and> q_id q = s_question_id s \<and>
              t_id t = s_id s \<and> t_due_date t = s_due_date s \<and> t_completed t = s_completed s \<and>
              t_title t = q_title q \<and> t_question_id t = q_id q \<and> t_notes t = q_notes q"
      by (intro bexI[of _ s] bexI[of _ q]) (auto simp: join_row_def)
  qed
  from 1 2 4 show ?thesis by blast
qed

text \<open>
  Claim C10. Without a date the handler takes the server's current date: it answers as
  it does for that date given explicitly, in every database. In a well-formed database
  (unique keys, every review with its question) the answer holds
  each review due on that date once, in the order of the schedule, and nothing else,
  each with the title, the key and the notes of its question.
\<close>

theorem get_schedule_default_today:
  "get_schedule now None db = get_schedule now (Some (dayjs_format (Some now))) db \<and>
   (wf_db db \<longrightarrow>
      map t_id (get_schedule now None db) =
        map s_id (filter (\<lambda>s. s_due_date s = dayjs_format (Some now)) (schedule db)) \<and>
      (\<forall>t \<in> set (get_schedule now None db).
         \<exists>s \<in> set (schedule db). \<exists>q \<in> set (questions db).
           s_due_date s = dayjs_format (Some now) \<and> q_id q = s_question_id s \<and>
           t_id t = s_id s \<and> t_due_date t = s_due_date s \<and> t_completed t = s_completed s \<and>
           t_title t = q_title q \<and> t_question_id t = q_id q \<and> t_notes t = q_notes q))"
proof (rule conjI)
  show "get_schedule now None db = get_schedule now (Some (dayjs_format (Some now))) db"
    by (simp add: get_schedule_def)
next
  show "wf_db db \<longrightarrow>
      map t_id (get_schedule now None db) =
        map s_id (filter (\<lambda>s. s_due_date s = dayjs_format (Some now)) (schedule db)) \<and>
      (\<forall>t \<in> set (get_schedule now None db).
         \<exists>s \<in> set (schedule db). \<exists>q \<in> set (questions db).
           s_due_date s = dayjs_format (Some now) \<and> q_id q = s_question_id s \<and>
           t_id t = s_id s \<and> t_due_date t = s_due_date s \<and> t_completed t = s_completed s \<and>
           t_title t = q_title q \<and> t_question_id t = q_id q \<and> t_notes t = q_notes q)"
    using get_schedule_joined[of db now] by blast
qed

text \<open>
  The theorem in the example database on 2024-01-05: review 2 is due.
\<close>

theorem get_schedule_default_today_witness:
  "wf_db example_db \<and>
   get_schedule \<lparr>year = 2024, month = 1, day = 5\<rparr> None example_db =
     get_schedule \<lparr>year = 2024, month = 1, day = 5\<rparr> (Some (js ''2024-01-05'')) example_db \<and>
   map t_id (get_schedule \<lparr>year = 2024, month = 1, day = 5\<rparr> None example_db) = [2]"
proof -
  let ?now = "\<lparr>year = 2024, month = 1, day = 5\<rparr>"
  have s: "dayjs_format (Some ?now) = js ''2024-01-05''"
    by (simp add: date_eval)
  note t = get_schedule_default_today[of ?now example_db, unfolded s]
  have 1: "get_schedule ?now None example_db = get_schedule ?now (Some (js ''2024-01-05'')) example_db"
    by (rule t[THEN conjunct1])
  have "map t_id (get_schedule ?now None example_db) =
          map s_id (filter (\<lambda>s. s_due_date s = js ''2024-01-05'') (schedule example_db))"
    by (rule t[THEN conjunct2, rule_format, OF wf_db_example, THEN conjunct1])
  also have "\<dots> = [2]"
    by (simp add: example_db_def js_def)
  finally show ?thesis
    using 1 wf_db_example by blast
qed

section \<open>Notes: what is saved is what is read back\<close>

lemma unat_hex_digit: "n < 16 \<Longrightarrow> unat (hex_digit n) = (if n < 10 then 48 + n else 87 + n)"
  unfolding hex_digit_def by (simp only: unat_of_nat split: if_splits) simp

lemma hex_val_hex_digit: "n < 16 \<Longrightarrow> hex_val (hex_digit n) = Some n"
  unfolding hex_val_def by (simp add: word_le_nat_alt unat_hex_digit)

lemma hex_digits4:
  "n < 65536 \<Longrightarrow> 4096 * (n div 4096) + 256 * (n div 256 mod 16) + 16 * (n div 16 mod 16) + n mod 16 = (n::nat)"
proof -
  have 1: "n mod 256 = 16 * (n div 16 mod 16) + n mod 16"
    using mod_mult2_eq[of n 16 16] by simp
  have 2: "n mod 4096 = 256 * (n div 256 mod 16) + n mod 256"
    using mod_mult2_eq[of n 256 16] by simp
  have 3: "n = 4096 * (n div 4096) + n mod 4096"
    by simp
  show ?thesis using 1 2 3 by linarith
qed

lemma hex4_val_UnicodeEscape:
  "hex4_val (hex_digit (unat c div 4096)) (hex_digit (unat c div 256 mod 16))
            (hex_digit (unat c div 16 mod 16)) (hex_digit (unat c mod 16)) = Some c"
proof -
  have b: "unat c < 65536" using unsigned_less[of c, where ?'a = nat] by simp
  then have "unat c div 4096 < 16" by simp
  then show ?thesis
    unfolding hex4_val_def
    by (simp add: hex_val_hex_digit hex_digits4[OF b])
qed

lemma lex_string_UnicodeEscape:
  "lex_string (UnicodeEscape c @ xs) = map_option (apfst ((#) c)) (lex_string xs)"
  unfolding UnicodeEscape_def Let_def
  by (simp add: hex4_val_UnicodeEscape)

lemma lex_string_quote_unit:
  "lex_string (quote_unit c @ xs) = map_option (apfst ((#) c)) (lex_string xs)"
  unfolding quote_unit_def
  by (simp add: lex_string_UnicodeEscape escape_val_def)

lemma surrogate_plain:
  assumes "is_leading_surrogate c \<or> is_trailing_surrogate c"
  shows "c \<noteq> 0x22" "c \<noteq> 0x5C" "\<not> c < 0x20"
  using assms
  by (auto simp: is_leading_surrogate_def is_trailing_surrogate_def word_le_nat_alt word_less_nat_alt)

lemma lex_string_quote_body:
  "lex_string (quote_body s @ 0x22 # rest) = Some (s, rest)"
proof (induction s rule: quote_body.induct)
  case 1
  show ?case by simp
next
  case (2 c)
  show ?case by (simp add: lex_string_quote_unit)
next
  case (3 c d cs)
  show ?case
  proof (cases "is_leading_surrogate c \<and> is_trailing_surrogate d")
    case True
    then have q: "quote_body (c # d # cs) = c # d # quote_body cs"
      by simp
    have "lex_string (c # d # quote_body cs @ 0x22 # rest) = Some (c # d # cs, rest)"
      using True 3(1) surrogate_plain[of c] surrogate_plain[of d] by simp
    then show ?thesis
      unfolding q by simp
  next
    case False
    then have q: "quote_body (c # d # cs) = quote_unit c @ quote_body (d # cs)"
      by auto
    show ?thesis
      unfolding q using False 3(2) by (simp add: lex_string_quote_unit)
  qed
qed

lemma lex_QuoteJSONString:
  "lex (QuoteJSONString s @ rest) = map_option ((#) (TString s)) (lex rest)"
  unfolding QuoteJSONString_def
  by (simp add: is_ws_def punctuation_def lex_string_quote_body)

lemma lex_JSON_stringify_notes:
  "lex (JSON_stringify_notes b o') =
     Some [LBrace, TString (js ''bruteForce''), Colon, TString b, Comma,
           TString (js ''optimized''), Colon, TString o', RBrace]"
  unfolding JSON_stringify_notes_def
  by (simp add: lex_QuoteJSONString is_ws_def punctuation_def)

lemma JSON_parse_stringify_notes:
  "JSON_parse (JSON_stringify_notes b o') =
     Inr (JObject [(js ''bruteForce'', JString b), (js ''optimized'', JString o')])"
  unfolding JSON_parse_def lex_JSON_stringify_notes
  by simp

lemma stringify_not_empty: "JSON_stringify_notes b o' \<noteq> []"
  by (simp add: JSON_stringify_notes_def)

text \<open>What \<open>QuoteJSONString\<close> writes for a quote, a line feed, a control character, a
  leading surrogate on its own, a surrogate pair, a trailing surrogate on its own and a
  plain character.\<close>

lemma QuoteJSONString_example:
  "QuoteJSONString [0x61, 0x22, 0x0A, 0x01, 0xD800, 0xD83D, 0xDE00, 0xDC00, 0x7F] =
     [0x22, 0x61, 0x5C, 0x22, 0x5C, 0x6E, 0x5C, 0x75, 0x30, 0x30, 0x30, 0x31,
      0x5C, 0x75, 0x64, 0x38, 0x30, 0x30, 0xD83D, 0xDE00,
      0x5C, 0x75, 0x64, 0x63, 0x30, 0x30, 0x7F, 0x22]"
  by (simp add: QuoteJSONString_def quote_unit_def UnicodeEscape_def hex_digit_def
        is_leading_surrogate_def is_trailing_surrogate_def)

text \<open>
  Claim C5. For every payload with two string fields, whatever the strings, reading
  what \<open>saveNotes\<close> serialises gives the payload back.
\<close>

theorem parseNotes_stringify:
  "parseNotes (JSON_stringify_notes b o') = \<lparr>bruteForce = JString b, optimized = JString o'\<rparr>"
  unfolding parseNotes_def parseNotes_try_def JSON_parse_stringify_notes
  by (simp add: stringify_not_empty get_property_def or_empty_def js_def)

section \<open>Notes: what is read from any stored text\<close>

lemmas json_eval =
  JSON_parse_def is_ws_def punctuation_def is_number_char_def is_digit_def is_letter_def
  literal_def valid_number_def valid_fraction_def valid_exponent_def strip_minus_def js_def

text \<open>The parser on nested values, on texts that are not JSON, and on escapes.\<close>

lemma JSON_parse_nested:
  "JSON_parse (js ''[1, 2.5e3, true, [], {}, null, false]'') =
     Inr (JArray [JNumber (js ''1''), JNumber (js ''2.5e3''), JBool True, JArray [], JObject [],
                  JNull, JBool False])"
  by (simp add: json_eval)

lemma JSON_parse_rejects:
  "JSON_parse (js ''[1,]'') = Inl SyntaxError"
  "JSON_parse (js ''01'') = Inl SyntaxError"
  "JSON_parse (js ''1.e3'') = Inl SyntaxError"
  "JSON_parse (js ''tru'') = Inl SyntaxError"
  "JSON_parse (js '' '') = Inl SyntaxError"
  "JSON_parse (js ''1 2'') = Inl SyntaxError"
  by (simp_all add: json_eval)

lemma JSON_parse_escapes:
  "JSON_parse [0x22, 0x61, 0x5C, 0x6E, 0x5C, 0x75, 0x30, 0x30, 0x45, 0x39, 0x5C, 0x2F, 0x22] =
     Inr (JString [0x61, 0x0A, 0xE9, 0x2F])"
  "JSON_parse [0x22, 0x0A, 0x22] = Inl SyntaxError"
  "JSON_parse [0x22, 0x5C, 0x78, 0x22] = Inl SyntaxError"
  by (simp_all add: json_eval hex4_val_def hex_val_def escape_val_def)

text \<open>Which numbers count as zero.\<close>

lemma truthy_numbers:
  "\<not> truthy (JNumber (js ''0''))" "\<not> truthy (JNumber (js ''-0.00e5''))"
  "truthy (JNumber (js ''0.001E+2''))" "truthy (JNumber (js ''-12.5''))"
  by (simp_all add: number_is_zero_def number_exponent_def digits_val_def digit_val_def
        is_digit_def strip_minus_def js_def Let_def)

lemma JSON_parse_error: "JSON_parse s = Inl e \<Longrightarrow> e = SyntaxError"
  by (auto simp: JSON_parse_def split: option.splits)

lemma parseNotes_object:
  "s \<noteq> [] \<Longrightarrow> JSON_parse s = Inr (JObject ms) \<Longrightarrow>
   parseNotes s = \<lparr>bruteForce = or_empty (map_of (rev ms) (js ''bruteForce'')),
                    optimized = or_empty (map_of (rev ms) (js ''optimized''))\<rparr>"
  by (simp add: parseNotes_def parseNotes_try_def get_property_def)

lemma parseNotes_scalar:
  "s \<noteq> [] \<Longrightarrow> JSON_parse s = Inr v \<Longrightarrow> v \<noteq> JNull \<Longrightarrow> \<forall>ms. v \<noteq> JObject ms \<Longrightarrow>
   parseNotes s = \<lparr>bruteForce = JString [], optimized = JString []\<rparr>"
  by (cases v) (simp_all add: parseNotes_def parseNotes_try_def get_property_def or_empty_def)

lemma parseNotes_fallback:
  "s \<noteq> [] \<Longrightarrow> JSON_parse s = Inl e \<or> JSON_parse s = Inr JNull \<Longrightarrow>
   parseNotes s = \<lparr>bruteForce = JString s, optimized = JString []\<rparr>"
  by (auto simp: parseNotes_def parseNotes_try_def get_property_def)

text \<open>
  Claim C6, as the code has it. \<open>parseNotes\<close> gives a payload for every text.
  For the empty text both fields are empty. For a text that parses to an object, each
  field is the value of the member of that name, or the empty string when the object
  has no such member or its value is null, false, zero or the empty string. For a text
  that parses to a number, a string, a boolean or an array, both fields are empty. For
  every other text that is not empty, the one that does not parse and the one that
  parses to null, the whole text is the field \<open>bruteForce\<close> and \<open>optimized\<close> is
  empty. Parsing either gives a value or throws a \<open>SyntaxError\<close>.
\<close>

theorem parseNotes_cases:
  "parseNotes [] = \<lparr>bruteForce = JString [], optimized = JString []\<rparr> \<and>
   (\<forall>ms. s \<noteq> [] \<and> JSON_parse s = Inr (JObject ms) \<longrightarrow>
      parseNotes s = \<lparr>bruteForce = or_empty (map_of (rev ms) (js ''bruteForce'')),
                       optimized = or_empty (map_of (rev ms) (js ''optimized''))\<rparr>) \<and>
   (\<forall>v. s \<noteq> [] \<and> JSON_parse s = Inr v \<and> v \<noteq> JNull \<and> (\<forall>ms. v \<noteq> JObject ms) \<longrightarrow>
      parseNotes s = \<lparr>bruteForce = JString [], optimized = JString []\<rparr>) \<and>
   (s \<noteq> [] \<and> (JSON_parse s = Inl SyntaxError \<or> JSON_parse s = Inr JNull) \<longrightarrow>
      parseNotes s = \<lparr>bruteForce = JString s, optimized = JString []\<rparr>) \<and>
   (JSON_parse s = Inl SyntaxError \<or> (\<exists>v. JSON_parse s = Inr v))"
proof (intro conjI allI impI)
  show "parseNotes [] = \<lparr>bruteForce = JString [], optimized = JString []\<rparr>"
    by (simp add: parseNotes_def)
next
  fix ms assume "s \<noteq> [] \<and> JSON_parse s = Inr (JObject ms)"
  then show "parseNotes s = \<lparr>bruteForce = or_empty (map_of (rev ms) (js ''bruteForce'')),
                       optimized = or_empty (map_of (rev ms) (js ''optimized''))\<rparr>"
    by (simp add: parseNotes_object)
next
  fix v assume "s \<noteq> [] \<and> JSON_parse s = Inr v \<and> v \<noteq> JNull \<and> (\<forall>ms. v \<noteq> JObject ms)"
  then show "parseNotes s = \<lparr>bruteForce = JString [], optimized = JString []\<rparr>"
    using parseNotes_scalar[of s v] by blast
next
  assume "s \<noteq> [] \<and> (JSON_parse s = Inl SyntaxError \<or> JSON_parse s = Inr JNull)"
  then show "parseNotes s = \<lparr>bruteForce = JString s, optimized = JString []\<rparr>"
    using parseNotes_fallback[of s SyntaxError] by blast
next
  show "JSON_parse s = Inl SyntaxError \<or> (\<exists>v. JSON_parse s = Inr v)"
    using JSON_parse_error[of s] by (cases "JSON_parse s") auto
qed

lemma JSON_parse_plain_text: "JSON_parse (js ''plain text'') = Inl SyntaxError"
  by (simp add: json_eval)

lemma JSON_parse_null: "JSON_parse (js ''null'') = Inr JNull"
  by (simp add: json_eval)

lemma JSON_parse_123: "JSON_parse (js ''123'') = Inr (JNumber (js ''123''))"
  by (simp add: json_eval)

text \<open>
  The theorem for a text that does not parse, for a number, and for a saved payload
  whose first field is empty.
\<close>

theorem parseNotes_cases_witness:
  "parseNotes (js ''plain text'') = \<lparr>bruteForce = JString (js ''plain text''), optimized = JString []\<rparr> \<and>
   parseNotes (js ''123'') = \<lparr>bruteForce = JString [], optimized = JString []\<rparr> \<and>
   parseNotes (JSON_stringify_notes [] (js ''two pointers'')) =
     \<lparr>bruteForce = JString [], optimized = JString (js ''two pointers'')\<rparr>"
proof -
  have 1: "js ''plain text'' \<noteq> []" "js ''123'' \<noteq> []"
    by (simp_all add: js_def)
  have a: "parseNotes (js ''plain text'') = \<lparr>bruteForce = JString (js ''plain text''), optimized = JString []\<rparr>"
    using parseNotes_cases[of "js ''plain text''"] 1 JSON_parse_plain_text by blast
  have n: "JNumber (js ''123'') \<noteq> JNull \<and> (\<forall>ms. JNumber (js ''123'') \<noteq> JObject ms)"
    by simp
  have b: "parseNotes (js ''123'') = \<lparr>bruteForce = JString [], optimized = JString []\<rparr>"
    using parseNotes_cases[of "js ''123''"] 1 JSON_parse_123 n by blast
  have "parseNotes (JSON_stringify_notes [] (js ''two pointers'')) =
     \<lparr>bruteForce = or_empty (map_of (rev [(js ''bruteForce'', JString []), (js ''optimized'', JString (js ''two pointers''))]) (js ''bruteForce'')),
      optimized = or_empty (map_of (rev [(js ''bruteForce'', JString []), (js ''optimized'', JString (js ''two pointers''))]) (js ''optimized''))\<rparr>"
    using parseNotes_cases[of "JSON_stringify_notes [] (js ''two pointers'')"]
      stringify_not_empty JSON_parse_stringify_notes by blast
  then have c: "parseNotes (JSON_stringify_notes [] (js ''two pointers'')) =
     \<lparr>bruteForce = JString [], optimized = JString (js ''two pointers'')\<rparr>"
    by (simp add: or_empty_def js_def)
  from a b c show ?thesis by blast
qed

text \<open>
  Claim C6 as stated does not hold. The text \<^verbatim>\<open>null\<close> parses, and still the whole
  text becomes the field \<open>bruteForce\<close>, because reading a property of null throws
  inside the \<^verbatim>\<open>try\<close>. The text \<^verbatim>\<open>123\<close> parses as well, to a number, and both
  fields are empty. So whether or not a text that parses to something other than an object
  counts as structured data, one of the two is not treated as the claim says.
\<close>

theorem parseNotes_null_counterexample:
  "JSON_parse (js ''null'') = Inr JNull \<and>
   parseNotes (js ''null'') = \<lparr>bruteForce = JString (js ''null''), optimized = JString []\<rparr> \<and>
   JSON_parse (js ''123'') = Inr (JNumber (js ''123'')) \<and>
   parseNotes (js ''123'') = \<lparr>bruteForce = JString [], optimized = JString []\<rparr> \<and>
   js ''null'' \<noteq> [] \<and> js ''123'' \<noteq> []"
proof -
  have 1: "js ''null'' \<noteq> []" "js ''123'' \<noteq> []"
    by (simp_all add: js_def)
  have "JNumber (js ''123'') \<noteq> JNull" "\<forall>ms. JNumber (js ''123'') \<noteq> JObject ms"
    by simp_all
  from parseNotes_scalar[OF 1(2) JSON_parse_123 this]
       parseNotes_fallback[of "js ''null''" SyntaxError] JSON_parse_null JSON_parse_123 1
  show ?thesis by simp
qed

end
